theory Spec2Isabelle
  imports Complex_Main "HOL-Library.Log_Nat"
begin

text \<open>
  The posture engine of the repository, in three parts: the metrics extraction of
  \<open>PoseDetector\<close> (pose-detection.js), the calibration store \<open>PostureCalibrator\<close>
  (calibration.js) and the debouncing monitor \<open>CalibratedPostureMonitor\<close>
  (calibrated-posture-monitor.js). Camera handling, persistence in localStorage and
  console output are outside the model.
\<close>

section \<open>JavaScript numbers\<close>

text \<open>
  A JavaScript number is an IEEE 754 double. The model keeps the finite values as the
  reals they denote, together with the two infinities and NaN, and rounds the exact
  result of every arithmetic operation to the nearest double (ties to even), so that
  \<open>0.1 + 0.2\<close> is not \<open>0.3\<close> here either. A decimal literal of the source is the
  double nearest to it: \<open>0.20\<close> is \<open>fl (20 / 100)\<close>. Two things are left out: the sign
  of zero (\<open>-0\<close> is identified with \<open>+0\<close>, so \<open>x / 0\<close> has the sign of \<open>x\<close>), and
  the last-bit freedom that ECMAScript gives to \<open>Math.sqrt\<close> and \<open>Math.atan2\<close>, which
  are taken to be correctly rounded.
\<close>

datatype number = Fin real | PosInf | NegInf | NaN

definition expo :: "real \<Rightarrow> int" where
  \<comment> \<open>the binary exponent of a positive real: \<open>2 ^ expo x \<le> x < 2 ^ (expo x + 1)\<close>\<close>
  "expo x = (if 1 \<le> x then bitlen \<lfloor>x\<rfloor> - 1 else - bitlen (\<lceil>1 / x\<rceil> - 1))"

definition ulp :: "real \<Rightarrow> real" where
  \<comment> \<open>the spacing of the doubles around \<open>x\<close>: 53 significant bits, subnormal below \<open>2 ^ -1022\<close>\<close>
  "ulp x = 2 powi (max (expo \<bar>x\<bar>) (- 1022) - 52)"

definition roundHalfEven :: "real \<Rightarrow> int" where
  "roundHalfEven y =
     (let f = \<lfloor>y\<rfloor>; d = y - of_int f in
      if d < 1 / 2 then f else if 1 / 2 < d then f + 1 else if even f then f else f + 1)"

definition rnd :: "real \<Rightarrow> real" where
  "rnd x = (if x = 0 then 0 else of_int (roundHalfEven (x / ulp x)) * ulp x)"

definition fl :: "real \<Rightarrow> number" where
  \<comment> \<open>the double nearest to a real; from \<open>2 ^ 1024\<close> on the result is infinite\<close>
  "fl x = (let r = rnd x in
           if 1024 \<le> expo \<bar>r\<bar> then (if 0 < r then PosInf else NegInf) else Fin r)"

definition signedInf :: "real \<Rightarrow> number" where
  "signedInf s = (if s = 0 then NaN else if 0 < s then PosInf else NegInf)"

instantiation number :: "{plus, minus, uminus, times, inverse, abs, ord}"
begin

definition plus_number :: "number \<Rightarrow> number \<Rightarrow> number" where
  "a + b = (case a of
       NaN \<Rightarrow> NaN
     | Fin x \<Rightarrow> (case b of Fin y \<Rightarrow> fl (x + y) | w \<Rightarrow> w)
     | PosInf \<Rightarrow> (case b of NaN \<Rightarrow> NaN | NegInf \<Rightarrow> NaN | _ \<Rightarrow> PosInf)
     | NegInf \<Rightarrow> (case b of NaN \<Rightarrow> NaN | PosInf \<Rightarrow> NaN | _ \<Rightarrow> NegInf))"

definition uminus_number :: "number \<Rightarrow> number" where
  "- a = (case a of Fin x \<Rightarrow> Fin (- x) | PosInf \<Rightarrow> NegInf | NegInf \<Rightarrow> PosInf | NaN \<Rightarrow> NaN)"

definition minus_number :: "number \<Rightarrow> number \<Rightarrow> number" where
  "a - b = (a :: number) + (- b)"

definition times_number :: "number \<Rightarrow> number \<Rightarrow> number" where
  "a * b = (case a of
       NaN \<Rightarrow> NaN
     | Fin x \<Rightarrow> (case b of Fin y \<Rightarrow> fl (x * y) | NaN \<Rightarrow> NaN
                  | PosInf \<Rightarrow> signedInf x | NegInf \<Rightarrow> signedInf (- x))
     | PosInf \<Rightarrow> (case b of Fin y \<Rightarrow> signedInf y | NaN \<Rightarrow> NaN
                  | PosInf \<Rightarrow> PosInf | NegInf \<Rightarrow> NegInf)
     | NegInf \<Rightarrow> (case b of Fin y \<Rightarrow> signedInf (- y) | NaN \<Rightarrow> NaN
                  | PosInf \<Rightarrow> NegInf | NegInf \<Rightarrow> PosInf))"

definition divide_number :: "number \<Rightarrow> number \<Rightarrow> number" where
  "divide a b = (case b of
       NaN \<Rightarrow> NaN
     | Fin y \<Rightarrow> (case a of NaN \<Rightarrow> NaN
                  | Fin x \<Rightarrow> (if y = 0 then signedInf x else fl (x / y))
                  | PosInf \<Rightarrow> (if 0 \<le> y then PosInf else NegInf)
                  | NegInf \<Rightarrow> (if 0 \<le> y then NegInf else PosInf))
     | PosInf \<Rightarrow> (case a of Fin x \<Rightarrow> Fin 0 | _ \<Rightarrow> NaN)
     | NegInf \<Rightarrow> (case a of Fin x \<Rightarrow> Fin 0 | _ \<Rightarrow> NaN))"

definition inverse_number :: "number \<Rightarrow> number" where
  "inverse a = divide (Fin 1) a"

definition abs_number :: "number \<Rightarrow> number" where
  "\<bar>a\<bar> = (case a of Fin x \<Rightarrow> Fin \<bar>x\<bar> | PosInf \<Rightarrow> PosInf | NegInf \<Rightarrow> PosInf | NaN \<Rightarrow> NaN)"

definition less_number :: "number \<Rightarrow> number \<Rightarrow> bool" where
  \<comment> \<open>every comparison with NaN is false\<close>
  "a < b = (case a of
       NaN \<Rightarrow> False
     | Fin x \<Rightarrow> (case b of Fin y \<Rightarrow> x < y | PosInf \<Rightarrow> True | _ \<Rightarrow> False)
     | NegInf \<Rightarrow> (case b of Fin y \<Rightarrow> True | PosInf \<Rightarrow> True | _ \<Rightarrow> False)
     | PosInf \<Rightarrow> False)"

definition less_eq_number :: "number \<Rightarrow> number \<Rightarrow> bool" where
  "a \<le> b = (case a of
       NaN \<Rightarrow> False
     | Fin x \<Rightarrow> (case b of Fin y \<Rightarrow> x \<le> y | PosInf \<Rightarrow> True | _ \<Rightarrow> False)
     | NegInf \<Rightarrow> (case b of NaN \<Rightarrow> False | _ \<Rightarrow> True)
     | PosInf \<Rightarrow> (case b of PosInf \<Rightarrow> True | _ \<Rightarrow> False))"

instance ..

end

definition numberOfNat :: "nat \<Rightarrow> number" where
  \<comment> \<open>an array length or a frame counter as a number (exact below \<open>2 ^ 53\<close>)\<close>
  "numberOfNat n = fl (real n)"

definition jsqrt :: "number \<Rightarrow> number" where
  \<comment> \<open>\<open>Math.sqrt\<close>\<close>
  "jsqrt a = (case a of Fin x \<Rightarrow> (if x < 0 then NaN else fl (sqrt x))
                      | PosInf \<Rightarrow> PosInf | NegInf \<Rightarrow> NaN | NaN \<Rightarrow> NaN)"

definition jfloor :: "number \<Rightarrow> number" where
  \<comment> \<open>\<open>Math.floor\<close>\<close>
  "jfloor a = (case a of Fin x \<Rightarrow> Fin (of_int \<lfloor>x\<rfloor>) | w \<Rightarrow> w)"

definition atan2r :: "real \<Rightarrow> real \<Rightarrow> real" where
  "atan2r b a =
     (if 0 < a then arctan (b / a)
      else if a < 0 then (if 0 \<le> b then arctan (b / a) + pi else arctan (b / a) - pi)
      else if 0 < b then pi / 2 else if b < 0 then - (pi / 2) else 0)"

definition jatan2 :: "number \<Rightarrow> number \<Rightarrow> number" where
  \<comment> \<open>\<open>Math.atan2(b, a)\<close>\<close>
  "jatan2 b a = (case b of
       NaN \<Rightarrow> NaN
     | Fin v \<Rightarrow> (case a of NaN \<Rightarrow> NaN | Fin u \<Rightarrow> fl (atan2r v u)
                  | PosInf \<Rightarrow> Fin 0
                  | NegInf \<Rightarrow> (if 0 \<le> v then fl pi else fl (- pi)))
     | PosInf \<Rightarrow> (case a of NaN \<Rightarrow> NaN | Fin u \<Rightarrow> fl (pi / 2)
                  | PosInf \<Rightarrow> fl (pi / 4) | NegInf \<Rightarrow> fl (3 * pi / 4))
     | NegInf \<Rightarrow> (case a of NaN \<Rightarrow> NaN | Fin u \<Rightarrow> fl (- (pi / 2))
                  | PosInf \<Rightarrow> fl (- (pi / 4)) | NegInf \<Rightarrow> fl (- (3 * pi / 4))))"

subsection \<open>Numbers as strings\<close>

fun showNat :: "nat \<Rightarrow> string" where
  "showNat n = (if n < 10 then [''0123456789'' ! n]
                else showNat (n div 10) @ [''0123456789'' ! (n mod 10)])"

declare showNat.simps [simp del]

definition padZeros :: "nat \<Rightarrow> string \<Rightarrow> string" where
  "padZeros k s = replicate (k - length s) CHR ''0'' @ s"

definition toFixed :: "nat \<Rightarrow> number \<Rightarrow> string option" where
  \<comment> \<open>\<open>Number.prototype.toFixed(d)\<close>: the decimal with \<open>d\<close> fraction digits nearest to the
      value, the larger one on a tie. From \<open>10 ^ 21\<close> on JavaScript answers in exponent
      notation, which is not rendered here: \<open>None\<close>.\<close>
  "toFixed d a = (case a of
       NaN \<Rightarrow> Some ''NaN''
     | PosInf \<Rightarrow> Some ''Infinity''
     | NegInf \<Rightarrow> Some ''-Infinity''
     | Fin v \<Rightarrow>
         if 10 ^ 21 \<le> \<bar>v\<bar> then None
         else
           let n = nat \<lfloor>\<bar>v\<bar> * 10 ^ d + 1 / 2\<rfloor>;
               ds = padZeros (d + 1) (showNat n);
               k = length ds - d
           in Some ((if v < 0 then ''-'' else '''') @ take k ds
                    @ (if d = 0 then '''' else ''.'' @ drop k ds)))"

definition numToString :: "number \<Rightarrow> string option" where
  \<comment> \<open>a number inside a template literal. Only the integers below \<open>10 ^ 21\<close> and the
      special values are rendered; the shortest-digits algorithm for fractions and the
      exponent notation are not: \<open>None\<close>.\<close>
  "numToString a = (case a of
       NaN \<Rightarrow> Some ''NaN''
     | PosInf \<Rightarrow> Some ''Infinity''
     | NegInf \<Rightarrow> Some ''-Infinity''
     | Fin v \<Rightarrow>
         if \<bar>v\<bar> < 10 ^ 21 \<and> of_int \<lfloor>v\<rfloor> = v
         then Some ((if v < 0 then ''-'' else '''') @ showNat (nat \<lfloor>\<bar>v\<bar>\<rfloor>))
         else None)"

fun join :: "string \<Rightarrow> string list \<Rightarrow> string" where
  "join sep [] = ''''"
| "join sep [s] = s"
| "join sep (s # t # ts) = s @ sep @ join sep (t # ts)"


section \<open>Pose detection: from landmarks to posture metrics\<close>

text \<open>
  A landmark is a point with three coordinates (the fields \<open>x\<close>, \<open>y\<close>, \<open>z\<close> of the
  source are \<open>px\<close>, \<open>py\<close>, \<open>pz\<close> here; \<open>visibility\<close> is not read by the functions
  below). A landmark that the detector did not deliver is \<open>None\<close>: reading a coordinate
  of it throws a TypeError in the source.
\<close>

record point =
  px :: number
  py :: number
  pz :: number

record landmarks =
  nose :: "point option"
  leftShoulder :: "point option"
  rightShoulder :: "point option"
  leftHip :: "point option"
  rightHip :: "point option"
  leftEar :: "point option"
  rightEar :: "point option"

text \<open>
  The averaged record of the calibrator has the five features; the record that
  \<open>calculatePostureMetrics\<close> returns has the shoulder width and the capture time as well.
\<close>

record avgMetrics =
  headShoulderRatio :: number
  shoulderAsymmetry :: number
  torsoAngle :: number
  neckAngle :: number
  forwardLean :: number

record metrics = avgMetrics +
  shoulderWidth :: number
  timestamp :: int

definition calculateDistance :: "point \<Rightarrow> point \<Rightarrow> number" where
  "calculateDistance point1 point2 =
     (let dx = px point1 - px point2;
          dy = py point1 - py point2;
          dz = pz point1 - pz point2
      in jsqrt (dx * dx + dy * dy + dz * dz))"

definition calculateAngle :: "point \<Rightarrow> point \<Rightarrow> point \<Rightarrow> number" where
  "calculateAngle point1 point2 point3 =
     (let radians = jatan2 (py point3 - py point2) (px point3 - px point2)
                    - jatan2 (py point1 - py point2) (px point1 - px point2);
          angle = \<bar>radians * fl 180 / fl pi\<bar>
      in if fl 180 < angle then fl 360 - angle else angle)"

definition getMidpoint :: "point \<Rightarrow> point \<Rightarrow> point" where
  "getMidpoint point1 point2 =
     \<lparr> px = (px point1 + px point2) / fl 2,
       py = (py point1 + py point2) / fl 2,
       pz = (pz point1 + pz point2) / fl 2 \<rparr>"

definition calculatePostureMetrics :: "int \<Rightarrow> landmarks option \<Rightarrow> metrics option" where
  \<comment> \<open>\<open>now\<close> is what \<open>Date.now()\<close> reads during the call. A missing landmark throws inside
      the \<open>try\<close> block and the \<open>catch\<close> returns null; a division by zero throws nothing.\<close>
  "calculatePostureMetrics now lms =
     (case lms of None \<Rightarrow> None | Some l \<Rightarrow>
      (case (leftShoulder l, rightShoulder l, leftHip l, rightHip l,
             leftEar l, rightEar l, nose l) of
         (Some ls, Some rs, Some lh, Some rh, Some le, Some re, Some n) \<Rightarrow>
           let shoulderMidpoint = getMidpoint ls rs;
               hipMidpoint = getMidpoint lh rh;
               earMidpoint = getMidpoint le re;
               width = calculateDistance ls rs;
               headToShoulderDistance = calculateDistance earMidpoint shoulderMidpoint;
               shoulderHeightDiff = \<bar>py ls - py rs\<bar>
           in Some \<lparr> headShoulderRatio = headToShoulderDistance / width,
                      shoulderAsymmetry = shoulderHeightDiff / width,
                      torsoAngle = calculateAngle shoulderMidpoint hipMidpoint
                         \<lparr> px = px hipMidpoint, py = py hipMidpoint + fl (1 / 10),
                           pz = pz hipMidpoint \<rparr>,
                      neckAngle = calculateAngle shoulderMidpoint earMidpoint n,
                      forwardLean = \<bar>pz shoulderMidpoint - pz hipMidpoint\<bar>,
                      shoulderWidth = width,
                      timestamp = now \<rparr>
       | _ \<Rightarrow> None))"

section \<open>The calibrator\<close>

text \<open>
  \<open>calibrationData\<close> is null until the first calibration completes. A completed
  calibration is stored under the key \<open>currentPostureType + 'Posture'\<close>: the keys
  \<open>goodPosture\<close> and \<open>slouchedPosture\<close> are the two fields the monitor reads, any other
  key goes to \<open>otherPostures\<close>.
\<close>

record calibrationData =
  goodPosture :: "avgMetrics option"
  slouchedPosture :: "avgMetrics option"
  calibratedAt :: int
  otherPostures :: "string \<rightharpoonup> avgMetrics"

record calibrator =
  calibrationData :: "calibrationData option"
  isCalibrating :: bool
  calibrationFrames :: "metrics list"
  requiredFrames :: nat
  currentPostureType :: "string option"

record calibrationProgress =
  progress :: number
  framesCollected :: nat
  framesRequired :: nat

definition newCalibrator :: calibrator where
  "newCalibrator =
     \<lparr> calibrationData = None, isCalibrating = False, calibrationFrames = [],
       requiredFrames = 60, currentPostureType = None \<rparr>"

definition startCalibration :: "string option \<Rightarrow> calibrator \<Rightarrow> calibrator" where
  \<comment> \<open>the argument defaults to \<open>'good'\<close> when it is left out\<close>
  "startCalibration posturType c =
     c\<lparr> isCalibrating := True, calibrationFrames := [],
        currentPostureType := Some (case posturType of None \<Rightarrow> ''good'' | Some t \<Rightarrow> t) \<rparr>"

definition postureKey :: "string option \<Rightarrow> string" where
  "postureKey t = (case t of None \<Rightarrow> ''undefined'' | Some s \<Rightarrow> s) @ ''Posture''"

definition storePosture :: "string \<Rightarrow> avgMetrics \<Rightarrow> calibrationData \<Rightarrow> calibrationData" where
  "storePosture k v d =
     (if k = ''goodPosture'' then d\<lparr> goodPosture := Some v \<rparr>
      else if k = ''slouchedPosture'' then d\<lparr> slouchedPosture := Some v \<rparr>
      else d\<lparr> otherPostures := (otherPostures d)(k \<mapsto> v) \<rparr>)"

definition storedPosture :: "string \<Rightarrow> calibrationData \<Rightarrow> avgMetrics option" where
  "storedPosture k d =
     (if k = ''goodPosture'' then goodPosture d
      else if k = ''slouchedPosture'' then slouchedPosture d
      else otherPostures d k)"

definition sumFrame :: "avgMetrics \<Rightarrow> metrics \<Rightarrow> avgMetrics" where
  \<comment> \<open>the body of the \<open>forEach\<close> over the frames\<close>
  "sumFrame acc frame =
     \<lparr> headShoulderRatio = headShoulderRatio acc + headShoulderRatio frame,
       shoulderAsymmetry = shoulderAsymmetry acc + shoulderAsymmetry frame,
       torsoAngle = torsoAngle acc + torsoAngle frame,
       neckAngle = neckAngle acc + neckAngle frame,
       forwardLean = forwardLean acc + forwardLean frame \<rparr>"

definition completeCalibration :: "int \<Rightarrow> calibrator \<Rightarrow> avgMetrics option \<times> calibrator" where
  "completeCalibration now c =
     (if length (calibrationFrames c) = 0 then (None, c)
      else
        let zero = \<lparr> headShoulderRatio = Fin 0, shoulderAsymmetry = Fin 0, torsoAngle = Fin 0,
                     neckAngle = Fin 0, forwardLean = Fin 0 \<rparr>;
            total = foldl sumFrame zero (calibrationFrames c);
            frameCount = numberOfNat (length (calibrationFrames c));
            avg = \<lparr> headShoulderRatio = headShoulderRatio total / frameCount,
                    shoulderAsymmetry = shoulderAsymmetry total / frameCount,
                    torsoAngle = torsoAngle total / frameCount,
                    neckAngle = neckAngle total / frameCount,
                    forwardLean = forwardLean total / frameCount \<rparr>;
            d = (case calibrationData c of
                   None \<Rightarrow> \<lparr> goodPosture = None, slouchedPosture = None,
                              calibratedAt = now, otherPostures = Map.empty \<rparr>
                 | Some d0 \<Rightarrow> d0)
        in (Some avg,
            c\<lparr> calibrationData := Some (storePosture (postureKey (currentPostureType c)) avg d),
               isCalibrating := False \<rparr>))"

definition addCalibrationFrame ::
  "int \<Rightarrow> calibrator \<Rightarrow> metrics option \<Rightarrow> calibrationProgress option \<times> calibrator" where
  "addCalibrationFrame now c frame =
     (case frame of None \<Rightarrow> (None, c) | Some f \<Rightarrow>
      if \<not> isCalibrating c then (None, c)
      else
        let c1 = c\<lparr> calibrationFrames := calibrationFrames c @ [f] \<rparr>;
            n = length (calibrationFrames c1);
            p = (numberOfNat n / numberOfNat (requiredFrames c1)) * fl 100;
            c2 = (if requiredFrames c1 \<le> n then snd (completeCalibration now c1) else c1)
        in (Some \<lparr> progress = p, framesCollected = length (calibrationFrames c2),
                     framesRequired = requiredFrames c2 \<rparr>, c2))"

datatype driftReason = NoCalibrationData | Deviation string number | WithinRange

record driftCheck =
  needed :: bool
  reason :: driftReason

definition metricKeys :: "(string \<times> (avgMetrics \<Rightarrow> number)) list" where
  \<comment> \<open>the keys of an averaged record, in the order \<open>for ... in\<close> visits them\<close>
  "metricKeys =
     [(''headShoulderRatio'', headShoulderRatio), (''shoulderAsymmetry'', shoulderAsymmetry),
      (''torsoAngle'', torsoAngle), (''neckAngle'', neckAngle), (''forwardLean'', forwardLean)]"

fun driftLoop ::
  "number \<Rightarrow> avgMetrics \<Rightarrow> avgMetrics \<Rightarrow> (string \<times> (avgMetrics \<Rightarrow> number)) list \<Rightarrow> driftCheck" where
  "driftLoop tolerance calibrated currentMetrics [] =
     \<lparr> needed = False, reason = WithinRange \<rparr>"
| "driftLoop tolerance calibrated currentMetrics ((metric, get) # ks) =
     (let deviation = \<bar>(get currentMetrics - get calibrated) / get calibrated\<bar>
      in if tolerance < deviation
         then \<lparr> needed = True, reason = Deviation metric (deviation * fl 100) \<rparr>
         else driftLoop tolerance calibrated currentMetrics ks)"

definition checkIfRecalibrationNeeded :: "calibrator \<Rightarrow> avgMetrics \<Rightarrow> driftCheck" where
  \<comment> \<open>the reason string of the source is \<open>`${metric} deviation: ${(deviation * 100).toFixed(1)}%`\<close>;
      \<open>Deviation\<close> carries the metric and the number\<close>
  "checkIfRecalibrationNeeded c currentMetrics =
     (case calibrationData c of
        None \<Rightarrow> \<lparr> needed = True, reason = NoCalibrationData \<rparr>
      | Some d \<Rightarrow>
          (case goodPosture d of
             None \<Rightarrow> \<lparr> needed = True, reason = NoCalibrationData \<rparr>
           | Some calibrated \<Rightarrow> driftLoop (fl (15 / 100)) calibrated currentMetrics metricKeys))"

definition hasCalibration :: "calibrator \<Rightarrow> bool" where
  "hasCalibration c =
     (case calibrationData c of
        None \<Rightarrow> False
      | Some d \<Rightarrow> goodPosture d \<noteq> None \<and> slouchedPosture d \<noteq> None)"

definition getCalibrationData :: "calibrator \<Rightarrow> calibrationData option" where
  "getCalibrationData c = calibrationData c"


section \<open>The calibrated posture monitor\<close>

text \<open>
  The monitor holds a reference to a calibrator; the functions below take the state of
  that calibrator at the time of the call as the argument \<open>c\<close>. \<open>now\<close> is what
  \<open>Date.now()\<close> reads during a call (a call that reads the clock twice is taken to read
  the same value). Console output is not modelled. A callback is an observer: the
  fields \<open>onSlouchDetected\<close> and \<open>onPostureCorrected\<close> say whether one is registered,
  and \<open>processFrame\<close> returns the calls it made. The frame counters are natural
  numbers; a JavaScript counter counts exactly up to \<open>2 ^ 53\<close>. A frame is a metrics
  record with number fields, as posture-types.ts declares it.
\<close>

datatype error = TypeError

datatype severity = Mild | Moderate | Severe

record stats =
  totalFrames :: nat
  stats_slouchFrames :: nat
  goodFrames :: nat
  alerts :: nat

record monitor =
  isMonitoring :: bool
  sessionStartTime :: "int option"
  driftCheckInterval :: int
  lastDriftCheck :: "int option"
  slouchFrames :: nat
  goodPostureFrames :: nat
  requiredSlouchFrames :: nat
  requiredGoodFrames :: nat
  isCurrentlySlouched :: bool
  onSlouchDetected :: bool
  onPostureCorrected :: bool
  stats :: stats

text \<open>
  The analysis that \<open>analyzePostureVsCalibration\<close> returns. \<open>totalDeviation\<close> is the number
  before the source formats it with \<open>toFixed(1)\<close>; the formatted \<open>currentMetrics\<close> strings
  of the source are for display only and are left out (formatting a number does not
  throw).
\<close>

record analysis =
  isSlouching :: bool
  issues :: "string list"
  severity :: severity
  totalDeviation :: number

record slouchEvent =
  ev_reason :: string
  ev_severity :: severity
  ev_duration :: number
  ev_deviation :: number

datatype callbackCall = SlouchDetected slouchEvent | PostureCorrected

record statsReport =
  sessionDuration :: "string option"
  postureQuality :: "string option"
  totalAlerts :: nat
  currentState :: string

definition newMonitor :: monitor where
  \<comment> \<open>the constructor\<close>
  "newMonitor =
     \<lparr> isMonitoring = False, sessionStartTime = None, driftCheckInterval = 3 * 60 * 1000,
       lastDriftCheck = None, slouchFrames = 0, goodPostureFrames = 0,
       requiredSlouchFrames = 100, requiredGoodFrames = 10, isCurrentlySlouched = False,
       onSlouchDetected = False, onPostureCorrected = False,
       stats = \<lparr> totalFrames = 0, stats_slouchFrames = 0, goodFrames = 0, alerts = 0 \<rparr> \<rparr>"

definition start :: "int \<Rightarrow> calibrator \<Rightarrow> monitor \<Rightarrow> bool \<times> monitor" where
  "start now c m =
     (if \<not> hasCalibration c then (False, m)
      else (True,
        m\<lparr> isMonitoring := True, sessionStartTime := Some now, lastDriftCheck := Some now,
           slouchFrames := 0, goodPostureFrames := 0, isCurrentlySlouched := False,
           stats := \<lparr> totalFrames = 0, stats_slouchFrames = 0, goodFrames = 0, alerts = 0 \<rparr> \<rparr>))"

definition stop :: "monitor \<Rightarrow> monitor" where
  "stop m = m\<lparr> isMonitoring := False \<rparr>"

definition onSlouch :: "monitor \<Rightarrow> monitor" where
  "onSlouch m = m\<lparr> onSlouchDetected := True \<rparr>"

definition onCorrection :: "monitor \<Rightarrow> monitor" where
  "onCorrection m = m\<lparr> onPostureCorrected := True \<rparr>"

definition resetSession :: "int \<Rightarrow> monitor \<Rightarrow> monitor" where
  "resetSession now m =
     m\<lparr> lastDriftCheck := Some now, slouchFrames := 0, goodPostureFrames := 0,
        isCurrentlySlouched := False \<rparr>"

definition analyzePostureVsCalibration :: "calibrator \<Rightarrow> metrics \<Rightarrow> error + analysis" where
  \<comment> \<open>reading \<open>goodPosture\<close> of a null calibration, or a feature of a null \<open>goodPosture\<close>,
      throws a TypeError\<close>
  "analyzePostureVsCalibration c currentMetrics =
     (case getCalibrationData c of None \<Rightarrow> Inl TypeError | Some calibration \<Rightarrow>
      (case goodPosture calibration of None \<Rightarrow> Inl TypeError | Some good \<Rightarrow>
        let issues0 = []; totalDeviation0 = Fin 0;
            headShoulderDiff = \<bar>headShoulderRatio currentMetrics - headShoulderRatio good\<bar>;
            headShoulderThreshold = headShoulderRatio good * fl (20 / 100);
            (issues1, totalDeviation1) =
               (if headShoulderThreshold < headShoulderDiff
                then (issues0 @ [''forward head posture''],
                      totalDeviation0 + (headShoulderDiff / headShoulderThreshold) * fl 30)
                else (issues0, totalDeviation0));
            shoulderAsymDiff = \<bar>shoulderAsymmetry currentMetrics - shoulderAsymmetry good\<bar>;
            shoulderThreshold = shoulderAsymmetry good + fl (5 / 100);
            (issues2, totalDeviation2) =
               (if shoulderThreshold < shoulderAsymmetry currentMetrics
                then (issues1 @ [''uneven shoulders''],
                      totalDeviation1
                        + (shoulderAsymDiff / (shoulderThreshold + fl (1 / 100))) * fl 20)
                else (issues1, totalDeviation1));
            torsoAngleDiff = \<bar>torsoAngle currentMetrics - torsoAngle good\<bar>;
            torsoThreshold = fl 18;
            (issues3, totalDeviation3) =
               (if torsoThreshold < torsoAngleDiff
                then (issues2 @ [''hunched spine''],
                      totalDeviation2 + (torsoAngleDiff / torsoThreshold) * fl 25)
                else (issues2, totalDeviation2));
            neckAngleDiff = \<bar>neckAngle currentMetrics - neckAngle good\<bar>;
            neckThreshold = fl 20;
            (issues4, totalDeviation4) =
               (if neckThreshold < neckAngleDiff
                then (issues3 @ [''head tilted down''],
                      totalDeviation3 + (neckAngleDiff / neckThreshold) * fl 20)
                else (issues3, totalDeviation3));
            forwardLeanDiff = \<bar>forwardLean currentMetrics - forwardLean good\<bar>;
            leanThreshold = forwardLean good * fl (30 / 100);
            (issues5, totalDeviation5) =
               (if leanThreshold < forwardLeanDiff
                then (issues4 @ [''leaning into screen''],
                      totalDeviation4
                        + (forwardLeanDiff / (leanThreshold + fl (1 / 100))) * fl 15)
                else (issues4, totalDeviation4))
        in Inr \<lparr> isSlouching = (2 \<le> length issues5 \<or> fl 35 < totalDeviation5),
                  issues = issues5,
                  severity = (if fl 60 < totalDeviation5 then Severe
                              else if fl 40 < totalDeviation5 then Moderate else Mild),
                  totalDeviation = totalDeviation5 \<rparr>))"

definition processFrame ::
  "int \<Rightarrow> calibrator \<Rightarrow> monitor \<Rightarrow> metrics option
     \<Rightarrow> (error + analysis option) \<times> callbackCall list \<times> monitor" where
  \<comment> \<open>the result, the callbacks called, and the monitor afterwards; when the analysis
      throws, the frame has been counted already\<close>
  "processFrame now c m frame =
     (case frame of None \<Rightarrow> (Inr None, [], m) | Some currentMetrics \<Rightarrow>
      if \<not> isMonitoring m then (Inr None, [], m)
      else
        let m1 = m\<lparr> stats := (stats m)\<lparr> totalFrames := totalFrames (stats m) + 1 \<rparr> \<rparr> in
        (case analyzePostureVsCalibration c currentMetrics of
           Inl e \<Rightarrow> (Inl e, [], m1)
         | Inr postureAnalysis \<Rightarrow>
            let (calls, m2) =
              (if isSlouching postureAnalysis then
                 let m1a = m1\<lparr> slouchFrames := slouchFrames m1 + 1, goodPostureFrames := 0,
                               stats := (stats m1)\<lparr> stats_slouchFrames :=
                                          stats_slouchFrames (stats m1) + 1 \<rparr> \<rparr>
                 in if requiredSlouchFrames m1a \<le> slouchFrames m1a \<and> \<not> isCurrentlySlouched m1a
                    then
                      ((if onSlouchDetected m1a
                        then [SlouchDetected
                                \<lparr> ev_reason = join '', '' (issues postureAnalysis),
                                  ev_severity = severity postureAnalysis,
                                  ev_duration = numberOfNat (slouchFrames m1a) / fl 10,
                                  ev_deviation = totalDeviation postureAnalysis \<rparr>]
                        else []),
                       m1a\<lparr> isCurrentlySlouched := True,
                            stats := (stats m1a)\<lparr> alerts := alerts (stats m1a) + 1 \<rparr> \<rparr>)
                    else ([], m1a)
               else
                 let m1b = m1\<lparr> slouchFrames := 0, goodPostureFrames := goodPostureFrames m1 + 1,
                               stats := (stats m1)\<lparr> goodFrames := goodFrames (stats m1) + 1 \<rparr> \<rparr>
                 in if isCurrentlySlouched m1b \<and> requiredGoodFrames m1b \<le> goodPostureFrames m1b
                    then ((if onPostureCorrected m1b then [PostureCorrected] else []),
                          m1b\<lparr> isCurrentlySlouched := False \<rparr>)
                    else ([], m1b));
              timeSinceLastCheck =
                now - (case lastDriftCheck m2 of None \<Rightarrow> 0 | Some t \<Rightarrow> t);
              m3 = (if driftCheckInterval m2 \<le> timeSinceLastCheck
                    then m2\<lparr> lastDriftCheck := Some now \<rparr> else m2)
            in (Inr (Some postureAnalysis), calls, m3)))"

definition getStats :: "int \<Rightarrow> monitor \<Rightarrow> statsReport" where
  "getStats now m =
     (let duration =
            (case sessionStartTime m of
               Some t \<Rightarrow>
                 \<comment> \<open>a start time of 0 is falsy like null\<close>
                 if t = 0 then Fin 0
                 else jfloor (fl (of_int (now - t)) / fl 1000 / fl 60)
             | None \<Rightarrow> Fin 0);
          quality =
            (if 0 < totalFrames (stats m)
             then toFixed 1 ((numberOfNat (goodFrames (stats m))
                               / numberOfNat (totalFrames (stats m))) * fl 100)
             else numToString (Fin 0))
      in \<lparr> sessionDuration = map_option (\<lambda>s. s @ '' minutes'') (numToString duration),
           postureQuality = map_option (\<lambda>s. s @ ''%'') quality,
           totalAlerts = alerts (stats m),
           currentState = (if isCurrentlySlouched m then ''SLOUCHED'' else ''GOOD'') \<rparr>)"


section \<open>Sequences of calls\<close>

text \<open>
  The verdict of the classifier on a frame: \<open>None\<close> when there is no frame or the
  analysis throws.
\<close>

definition verdict :: "calibrator \<Rightarrow> metrics option \<Rightarrow> bool option" where
  "verdict c frame =
     (case frame of None \<Rightarrow> None | Some x \<Rightarrow>
      (case analyzePostureVsCalibration c x of Inl e \<Rightarrow> None | Inr a \<Rightarrow> Some (isSlouching a)))"

text \<open>
  Feeding frames to \<open>processFrame\<close> one after the other, each with the clock reading of
  its call; the callbacks called are collected in order.
\<close>

fun feed :: "calibrator \<Rightarrow> monitor \<Rightarrow> (int \<times> metrics option) list \<Rightarrow> callbackCall list \<times> monitor" where
  "feed c m [] = ([], m)"
| "feed c m ((now, frame) # fs) =
     (case processFrame now c m frame of (r, calls, m') \<Rightarrow>
      (case feed c m' fs of (calls', m'') \<Rightarrow> (calls @ calls', m'')))"

fun isSlouchCall :: "callbackCall \<Rightarrow> bool" where
  "isSlouchCall (SlouchDetected e) = True"
| "isSlouchCall PostureCorrected = False"

datatype monitorCall =
    Start int
  | Stop
  | ProcessFrame int "metrics option"
  | ResetSession int
  | OnSlouch
  | OnCorrection

fun call :: "calibrator \<Rightarrow> monitor \<Rightarrow> monitorCall \<Rightarrow> monitor" where
  "call c m (Start now) = snd (start now c m)"
| "call c m Stop = stop m"
| "call c m (ProcessFrame now frame) = snd (snd (processFrame now c m frame))"
| "call c m (ResetSession now) = resetSession now m"
| "call c m OnSlouch = onSlouch m"
| "call c m OnCorrection = onCorrection m"

definition addFrames :: "int \<Rightarrow> metrics \<Rightarrow> nat \<Rightarrow> calibrator \<Rightarrow> calibrator" where
  \<comment> \<open>\<open>addCalibrationFrame\<close> called \<open>k\<close> times with the same frame\<close>
  "addFrames now frame k c = ((\<lambda>c'. snd (addCalibrationFrame now c' (Some frame))) ^^ k) c"

section \<open>Auxiliary definitions for the proofs\<close>

text \<open>The calls made and the state reached by one \<open>processFrame\<close>.\<close>

definition stepCalls :: "int \<Rightarrow> calibrator \<Rightarrow> monitor \<Rightarrow> metrics option \<Rightarrow> callbackCall list" where
  "stepCalls now c m frame = fst (snd (processFrame now c m frame))"

definition stepState :: "int \<Rightarrow> calibrator \<Rightarrow> monitor \<Rightarrow> metrics option \<Rightarrow> monitor" where
  "stepState now c m frame = snd (snd (processFrame now c m frame))"

text \<open>
  The invariant behind the statistics: the three frame counters add up, and a monitor
  that is monitoring has a complete calibration behind it.
\<close>

definition statsInv :: "calibrator \<Rightarrow> monitor \<Rightarrow> bool" where
  "statsInv c m \<longleftrightarrow>
     totalFrames (stats m) = stats_slouchFrames (stats m) + goodFrames (stats m)
     \<and> (isMonitoring m \<longrightarrow> hasCalibration c)"

text \<open>
  The scenario of the specification: a good posture with head-shoulder ratio 0.30 and
  torso angle 5 degrees, a slouched posture with 0.45 and 25 degrees.
\<close>

definition scenarioGood :: avgMetrics where
  "scenarioGood =
     \<lparr> headShoulderRatio = fl (30 / 100), shoulderAsymmetry = fl (2 / 100), torsoAngle = fl 5,
       neckAngle = fl 10, forwardLean = fl (1 / 10) \<rparr>"

definition scenarioSlouched :: avgMetrics where
  "scenarioSlouched =
     \<lparr> headShoulderRatio = fl (45 / 100), shoulderAsymmetry = fl (2 / 100), torsoAngle = fl 25,
       neckAngle = fl 10, forwardLean = fl (1 / 10) \<rparr>"

definition scenarioCalibrator :: calibrator where
  "scenarioCalibrator =
     newCalibrator\<lparr> calibrationData :=
       Some \<lparr> goodPosture = Some scenarioGood, slouchedPosture = Some scenarioSlouched,
              calibratedAt = 0, otherPostures = Map.empty \<rparr> \<rparr>"

definition goodFrame :: metrics where
  "goodFrame =
     \<lparr> headShoulderRatio = fl (30 / 100), shoulderAsymmetry = fl (2 / 100), torsoAngle = fl 5,
       neckAngle = fl 10, forwardLean = fl (1 / 10), shoulderWidth = fl (1 / 2),
       timestamp = 0 \<rparr>"

definition slouchedFrame :: metrics where
  "slouchedFrame =
     \<lparr> headShoulderRatio = fl (45 / 100), shoulderAsymmetry = fl (2 / 100), torsoAngle = fl 25,
       neckAngle = fl 10, forwardLean = fl (1 / 10), shoulderWidth = fl (1 / 2),
       timestamp = 0 \<rparr>"

definition startedMonitor :: monitor where
  \<comment> \<open>a new monitor with both callbacks registered, started on the scenario's calibration\<close>
  "startedMonitor = snd (start 0 scenarioCalibrator (onCorrection (onSlouch newMonitor)))"

definition alertedMonitor :: monitor where
  \<comment> \<open>the started monitor after 100 slouching frames\<close>
  "alertedMonitor =
     snd (feed scenarioCalibrator startedMonitor (replicate 100 (0, Some slouchedFrame)))"

definition midStreakMonitor :: monitor where
  \<comment> \<open>five good frames later, in the middle of a good streak\<close>
  "midStreakMonitor =
     snd (feed scenarioCalibrator alertedMonitor (replicate 5 (0, Some goodFrame)))"

text \<open>Values that are NaN, or not negative.\<close>

definition nonnegOrNaN :: "number \<Rightarrow> bool" where
  "nonnegOrNaN v = (case v of Fin r \<Rightarrow> 0 \<le> r | PosInf \<Rightarrow> True | NegInf \<Rightarrow> False | NaN \<Rightarrow> True)"

text \<open>
  Two landmark sets: a person sitting upright, and the same person with both shoulder
  landmarks reported at the same place.
\<close>

definition uprightLandmarks :: landmarks where
  "uprightLandmarks =
     \<lparr> nose = Some \<lparr> px = Fin 0, py = Fin 2, pz = Fin 0 \<rparr>,
       leftShoulder = Some \<lparr> px = Fin 1, py = Fin 0, pz = Fin 0 \<rparr>,
       rightShoulder = Some \<lparr> px = Fin (- 1), py = Fin 0, pz = Fin 0 \<rparr>,
       leftHip = Some \<lparr> px = Fin 1, py = Fin (- 3), pz = Fin 0 \<rparr>,
       rightHip = Some \<lparr> px = Fin (- 1), py = Fin (- 3), pz = Fin 0 \<rparr>,
       leftEar = Some \<lparr> px = Fin 1, py = Fin 1, pz = Fin 0 \<rparr>,
       rightEar = Some \<lparr> px = Fin (- 1), py = Fin 1, pz = Fin 0 \<rparr> \<rparr>"

definition coincidentShoulders :: landmarks where
  "coincidentShoulders =
     uprightLandmarks\<lparr> leftShoulder := Some \<lparr> px = Fin 0, py = Fin 0, pz = Fin 0 \<rparr>,
                       rightShoulder := Some \<lparr> px = Fin 0, py = Fin 0, pz = Fin 0 \<rparr> \<rparr>"

text \<open>
  The classifier, feature by feature: whether the tolerance is exceeded, the issue it
  names, and what it adds to the total deviation. \<open>codeTerms\<close> lists what the source
  computes; \<open>claimedTerms\<close> follows the words of the specification, where every
  contribution is \<open>(diff / tolerance) * weight\<close>.
\<close>

definition codeTerms :: "avgMetrics \<Rightarrow> metrics \<Rightarrow> (bool \<times> string \<times> number) list" where
  "codeTerms good cur =
     [(headShoulderRatio good * fl (20 / 100) < \<bar>headShoulderRatio cur - headShoulderRatio good\<bar>,
       ''forward head posture'',
       (\<bar>headShoulderRatio cur - headShoulderRatio good\<bar>
          / (headShoulderRatio good * fl (20 / 100))) * fl 30),
      (shoulderAsymmetry good + fl (5 / 100) < shoulderAsymmetry cur,
       ''uneven shoulders'',
       (\<bar>shoulderAsymmetry cur - shoulderAsymmetry good\<bar>
          / (shoulderAsymmetry good + fl (5 / 100) + fl (1 / 100))) * fl 20),
      (fl 18 < \<bar>torsoAngle cur - torsoAngle good\<bar>,
       ''hunched spine'',
       (\<bar>torsoAngle cur - torsoAngle good\<bar> / fl 18) * fl 25),
      (fl 20 < \<bar>neckAngle cur - neckAngle good\<bar>,
       ''head tilted down'',
       (\<bar>neckAngle cur - neckAngle good\<bar> / fl 20) * fl 20),
      (forwardLean good * fl (30 / 100) < \<bar>forwardLean cur - forwardLean good\<bar>,
       ''leaning into screen'',
       (\<bar>forwardLean cur - forwardLean good\<bar>
          / (forwardLean good * fl (30 / 100) + fl (1 / 100))) * fl 15)]"

definition claimedTerms :: "avgMetrics \<Rightarrow> metrics \<Rightarrow> (bool \<times> string \<times> number) list" where
  "claimedTerms good cur =
     [(headShoulderRatio good * fl (20 / 100) < \<bar>headShoulderRatio cur - headShoulderRatio good\<bar>,
       ''forward head posture'',
       (\<bar>headShoulderRatio cur - headShoulderRatio good\<bar>
          / (headShoulderRatio good * fl (20 / 100))) * fl 30),
      (shoulderAsymmetry good + fl (5 / 100) < shoulderAsymmetry cur,
       ''uneven shoulders'',
       (\<bar>shoulderAsymmetry cur - shoulderAsymmetry good\<bar>
          / (shoulderAsymmetry good + fl (5 / 100))) * fl 20),
      (fl 18 < \<bar>torsoAngle cur - torsoAngle good\<bar>,
       ''hunched spine'',
       (\<bar>torsoAngle cur - torsoAngle good\<bar> / fl 18) * fl 25),
      (fl 20 < \<bar>neckAngle cur - neckAngle good\<bar>,
       ''head tilted down'',
       (\<bar>neckAngle cur - neckAngle good\<bar> / fl 20) * fl 20),
      (forwardLean good * fl (30 / 100) < \<bar>forwardLean cur - forwardLean good\<bar>,
       ''leaning into screen'',
       (\<bar>forwardLean cur - forwardLean good\<bar> / (forwardLean good * fl (30 / 100))) * fl 15)]"

definition exceededIssues :: "(bool \<times> string \<times> number) list \<Rightarrow> string list" where
  "exceededIssues ts = map (\<lambda>t. fst (snd t)) (filter fst ts)"

definition sumExceeded :: "(bool \<times> string \<times> number) list \<Rightarrow> number" where
  \<comment> \<open>the contributions of the exceeded features, added up from 0 in the order of the list\<close>
  "sumExceeded ts = foldl (+) (Fin 0) (map (\<lambda>t. snd (snd t)) (filter fst ts))"

definition claimedIsSlouching :: "avgMetrics \<Rightarrow> metrics \<Rightarrow> bool" where
  "claimedIsSlouching good cur =
     (2 \<le> length (exceededIssues (claimedTerms good cur))
      \<or> fl 35 < sumExceeded (claimedTerms good cur))"

definition leaningFrame :: metrics where
  \<comment> \<open>the good posture of the scenario, leaning forward by 0.18 instead of 0.1\<close>
  "leaningFrame = goodFrame\<lparr> forwardLean := fl (18 / 100) \<rparr>"

text \<open>
  Averaging copies of one value the way \<open>completeCalibration\<close> does: added up from 0 one
  after the other, then divided by their number.
\<close>

definition sumCopies :: "nat \<Rightarrow> number \<Rightarrow> number" where
  "sumCopies n v = foldl (+) (Fin 0) (replicate n v)"

definition meanOfCopies :: "nat \<Rightarrow> number \<Rightarrow> number" where
  "meanOfCopies n v = sumCopies n v / numberOfNat n"

definition exactMultiples :: "nat \<Rightarrow> number \<Rightarrow> bool" where
  \<comment> \<open>the value is finite and its first \<open>n\<close> multiples are doubles\<close>
  "exactMultiples n v =
     (case v of Fin r \<Rightarrow> list_all (\<lambda>k. fl (real k * r) = Fin (real k * r)) [1..<Suc n]
              | _ \<Rightarrow> False)"

definition baselineFor :: "string \<Rightarrow> calibrator \<Rightarrow> avgMetrics option" where
  \<comment> \<open>the baseline stored for a posture type\<close>
  "baselineFor kind c =
     (case calibrationData c of None \<Rightarrow> None | Some d \<Rightarrow> storedPosture (kind @ ''Posture'') d)"

definition features :: "metrics \<Rightarrow> avgMetrics" where
  \<comment> \<open>the five averaged features of a metrics record\<close>
  "features m =
     \<lparr> headShoulderRatio = headShoulderRatio m, shoulderAsymmetry = shoulderAsymmetry m,
       torsoAngle = torsoAngle m, neckAngle = neckAngle m, forwardLean = forwardLean m \<rparr>"

definition dyadicFrame :: metrics where
  \<comment> \<open>a frame whose features have short binary expansions\<close>
  "dyadicFrame =
     \<lparr> headShoulderRatio = Fin (1 / 4), shoulderAsymmetry = Fin 0, torsoAngle = Fin 5,
       neckAngle = Fin 10, forwardLean = Fin (1 / 8), shoulderWidth = Fin (1 / 2),
       timestamp = 0 \<rparr>"

text \<open>A number of tenths written with one decimal: 625 is \<open>62.5\<close>.\<close>

definition oneDecimal :: "nat \<Rightarrow> string" where
  "oneDecimal q = showNat (q div 10) @ ''.'' @ showNat (q mod 10)"

definition twoFrameMonitor :: monitor where
  \<comment> \<open>a new monitor, started, after one good and one slouched frame\<close>
  "twoFrameMonitor =
     foldl (call scenarioCalibrator) newMonitor
       [Start 0, ProcessFrame 0 (Some goodFrame), ProcessFrame 0 (Some slouchedFrame)]"

text \<open>
  The posture quality in the words of the specification: the percentage of good frames,
  rounded to one decimal place (a half goes up), 0 without frames.
\<close>

definition claimedPostureQuality :: "monitor \<Rightarrow> string" where
  "claimedPostureQuality m =
     (if totalFrames (stats m) = 0 then ''0''
      else oneDecimal (nat \<lfloor>real (goodFrames (stats m)) / real (totalFrames (stats m))
                              * 100 * 10 + 1 / 2\<rfloor>)) @ ''%''"

definition framesMonitor :: "nat \<Rightarrow> nat \<Rightarrow> monitor" where
  \<comment> \<open>a new monitor, started, after \<open>g\<close> good and \<open>s\<close> slouched frames of the scenario\<close>
  "framesMonitor g s =
     foldl (call scenarioCalibrator) newMonitor
       (Start 0 # replicate g (ProcessFrame 0 (Some goodFrame))
          @ replicate s (ProcessFrame 0 (Some slouchedFrame)))"

section \<open>Properties of the rounding\<close>

lemma roundHalfEven_of_int: "roundHalfEven (of_int j) = j"
  by (simp add: roundHalfEven_def)

lemma roundHalfEven_close: "\<bar>of_int (roundHalfEven y) - y\<bar> \<le> 1 / 2"
  unfolding roundHalfEven_def Let_def
  by (auto simp: abs_if) linarith+

lemma pow2_le_int: "2 ^ n \<le> (k::int) \<Longrightarrow> (2::real) ^ n \<le> of_int k"
  by (metis of_int_le_iff of_int_numeral of_int_power)

lemma int_lt_pow2: "(k::int) < 2 ^ n \<Longrightarrow> of_int k + 1 \<le> (2::real) ^ n"
proof -
  assume "k < 2 ^ n"
  then have "k + 1 \<le> 2 ^ n" by simp
  then have "of_int (k + 1) \<le> (of_int (2 ^ n) :: real)" by (simp only: of_int_le_iff)
  then show ?thesis by simp
qed

lemma expo_ge1:
  assumes "1 \<le> x"
  shows "0 \<le> expo x" and "2 ^ nat (expo x) \<le> x" and "x < 2 ^ nat (expo x + 1)"
proof -
  have n: "0 < \<lfloor>x\<rfloor>" using assms by linarith
  have e: "expo x = bitlen \<lfloor>x\<rfloor> - 1" using assms by (simp add: expo_def)
  have b: "1 \<le> bitlen \<lfloor>x\<rfloor>" using n by (simp add: bitlen_alt_def)
  show "0 \<le> expo x" using e b by simp
  from bitlen_bounds [OF n]
  have lo: "2 ^ nat (bitlen \<lfloor>x\<rfloor> - 1) \<le> \<lfloor>x\<rfloor>" and hi: "\<lfloor>x\<rfloor> < 2 ^ nat (bitlen \<lfloor>x\<rfloor>)"
    by simp_all
  have "(2::real) ^ nat (expo x) \<le> of_int \<lfloor>x\<rfloor>" using pow2_le_int [OF lo] e by simp
  also have "\<dots> \<le> x" by simp
  finally show "2 ^ nat (expo x) \<le> x" .
  have "x < of_int \<lfloor>x\<rfloor> + 1" by linarith
  also have "\<dots> \<le> 2 ^ nat (bitlen \<lfloor>x\<rfloor>)" using int_lt_pow2 [OF hi] .
  also have "nat (bitlen \<lfloor>x\<rfloor>) = nat (expo x + 1)" using e by simp
  finally show "x < 2 ^ nat (expo x + 1)" .
qed

lemma expo_lt1:
  assumes "0 < x" "x < 1"
  shows "expo x < 0" and "1 / 2 ^ nat (- expo x) \<le> x" and "x < 2 / 2 ^ nat (- expo x)"
proof -
  let ?c = "\<lceil>1 / x\<rceil>"
  let ?k = "bitlen (?c - 1)"
  have y: "1 < 1 / x" using assms by simp
  then have c: "0 < ?c - 1" by linarith
  have e: "expo x = - ?k" using assms by (simp add: expo_def)
  have b: "1 \<le> ?k" using c by (simp add: bitlen_alt_def)
  show "expo x < 0" using e b by simp
  from bitlen_bounds [OF c]
  have lo: "2 ^ nat (?k - 1) \<le> ?c - 1" and hi: "?c - 1 < 2 ^ nat ?k" by simp_all
  have "1 / x \<le> of_int ?c" by simp
  also have "\<dots> = of_int (?c - 1) + 1" by simp
  also have "\<dots> \<le> 2 ^ nat ?k" using int_lt_pow2 [OF hi] .
  finally have "1 / x \<le> 2 ^ nat ?k" .
  then have "1 \<le> 2 ^ nat ?k * x" using assms(1) by (simp add: field_simps)
  then show "1 / 2 ^ nat (- expo x) \<le> x" using e by (simp add: field_simps)
  have "(2::real) ^ nat (?k - 1) \<le> of_int (?c - 1)" using pow2_le_int [OF lo] .
  also have "\<dots> < 1 / x" by linarith
  finally have "2 ^ nat (?k - 1) * x < 1" using assms(1) by (simp add: field_simps)
  moreover have "(2::real) ^ nat ?k = 2 * 2 ^ nat (?k - 1)"
    using b by (metis Suc_nat_eq_nat_zadd1 add.commute diff_add_cancel diff_ge_0_iff_ge power_Suc)
  ultimately show "x < 2 / 2 ^ nat (- expo x)" using e by (simp add: field_simps)
qed

lemma expo_bounds:
  assumes "0 < x"
  shows "2 powi (expo x) \<le> x" and "x < 2 powi (expo x + 1)"
proof -
  show "2 powi (expo x) \<le> x"
  proof (cases "1 \<le> x")
    case True
    from expo_ge1 [OF True] show ?thesis by (simp add: power_int_def)
  next
    case False
    then have "x < 1" by simp
    from expo_lt1 [OF assms this] show ?thesis
      by (simp add: power_int_def field_simps)
  qed
  show "x < 2 powi (expo x + 1)"
  proof (cases "1 \<le> x")
    case True
    from expo_ge1 [OF True] show ?thesis by (simp add: power_int_def)
  next
    case False
    then have x1: "x < 1" by simp
    from expo_lt1 [OF assms x1] have e: "expo x < 0" and u: "x < 2 / 2 ^ nat (- expo x)" by simp_all
    have "(2::real) powi (expo x + 1) = 2 powi (expo x) * 2"
      by (simp add: power_int_add)
    also have "\<dots> = 2 / 2 ^ nat (- expo x)" using e by (simp add: power_int_def field_simps)
    finally show ?thesis using u by simp
  qed
qed

lemma ulp_pos: "0 < ulp x"
  by (simp add: ulp_def)

lemma rnd_close: "\<bar>rnd x - x\<bar> \<le> ulp x / 2"
proof (cases "x = 0")
  case True
  then show ?thesis using ulp_pos [of 0] by (simp add: rnd_def)
next
  case False
  have u: "0 < ulp x" by (rule ulp_pos)
  have "rnd x - x = (of_int (roundHalfEven (x / ulp x)) - x / ulp x) * ulp x"
    using False u by (simp add: rnd_def field_simps)
  then have "\<bar>rnd x - x\<bar> = \<bar>of_int (roundHalfEven (x / ulp x)) - x / ulp x\<bar> * ulp x"
    using u by (simp add: abs_mult)
  also have "\<dots> \<le> (1 / 2) * ulp x"
    using roundHalfEven_close [of "x / ulp x"] u by (intro mult_right_mono) simp_all
  finally show ?thesis by simp
qed

lemma expo_less:
  assumes "0 < x" "x < 2 powi n"
  shows "expo x < n"
proof (rule ccontr)
  assume "\<not> expo x < n"
  then have "n \<le> expo x" by simp
  then have "(2::real) powi n \<le> 2 powi (expo x)" by (intro power_int_increasing) simp_all
  also have "\<dots> \<le> x" using expo_bounds(1) [OF assms(1)] .
  finally show False using assms(2) by simp
qed

lemma expo_ge:
  assumes "0 < x" "2 powi n \<le> x"
  shows "n \<le> expo x"
proof (rule ccontr)
  assume "\<not> n \<le> expo x"
  then have "expo x + 1 \<le> n" by simp
  then have "(2::real) powi (expo x + 1) \<le> 2 powi n" by (intro power_int_increasing) simp_all
  then show False using expo_bounds(2) [OF assms(1)] assms(2) by simp
qed

lemma ulp_le:
  assumes "x \<noteq> 0" "- 1022 \<le> expo \<bar>x\<bar>"
  shows "ulp x \<le> \<bar>x\<bar> / 2 ^ 52"
proof -
  have "ulp x = 2 powi (expo \<bar>x\<bar>) / 2 ^ 52"
    using assms(2) by (simp add: ulp_def max_def power_int_diff)
  also have "\<dots> \<le> \<bar>x\<bar> / 2 ^ 52"
    using expo_bounds(1) [of "\<bar>x\<bar>"] assms(1) by (simp add: divide_right_mono)
  finally show ?thesis .
qed

lemma rnd_exact:
  assumes "x = of_int i * 2 powi k" "\<bar>i\<bar> < 2 ^ 53" "- 1074 \<le> k"
  shows "rnd x = x"
proof (cases "x = 0")
  case True
  then show ?thesis by (simp add: rnd_def)
next
  case False
  define e where "e = max (expo \<bar>x\<bar>) (- 1022) - 52"
  have u: "ulp x = 2 powi e" by (simp add: ulp_def e_def)
  have pos: "0 < \<bar>x\<bar>" using False by simp
  have "\<bar>x\<bar> = of_int \<bar>i\<bar> * 2 powi k" by (simp add: assms(1) abs_mult)
  also have "\<dots> < 2 ^ 53 * 2 powi k"
  proof -
    have "(of_int \<bar>i\<bar> :: real) < of_int (2 ^ 53)" using assms(2) by (simp only: of_int_less_iff)
    then show ?thesis by (intro mult_strict_right_mono) simp_all
  qed
  also have "\<dots> = 2 powi (53 + k)" by (simp add: power_int_add)
  finally have "expo \<bar>x\<bar> < 53 + k" using expo_less [OF pos] by simp
  then have ek: "e \<le> k" using assms(3) by (simp add: e_def)
  have "x / 2 powi e = of_int i * 2 powi (k - e)"
    by (simp add: assms(1) power_int_diff)
  also have "\<dots> = of_int i * 2 ^ nat (k - e)" using ek by (simp add: power_int_def)
  also have "\<dots> = of_int (i * 2 ^ nat (k - e))" by simp
  finally have "x / ulp x = of_int (i * 2 ^ nat (k - e))" using u by simp
  then have "roundHalfEven (x / ulp x) = i * 2 ^ nat (k - e)"
    by (simp only: roundHalfEven_of_int)
  then have "rnd x = of_int (i * 2 ^ nat (k - e)) * 2 powi e" using False u by (simp add: rnd_def)
  also have "\<dots> = of_int i * (2 powi (k - e) * 2 powi e)" using ek by (simp add: power_int_def)
  also have "2 powi (k - e) * 2 powi e = (2::real) powi k"
    by (simp add: power_int_diff)
  finally show ?thesis by (simp add: assms(1))
qed

lemma fl_of_rnd:
  assumes "\<bar>rnd x\<bar> < 2 powi 1024"
  shows "fl x = Fin (rnd x)"
proof (cases "rnd x = 0")
  case True
  then show ?thesis by (simp add: fl_def Let_def expo_def bitlen_alt_def)
next
  case False
  then have "expo \<bar>rnd x\<bar> < 1024" using expo_less [of "\<bar>rnd x\<bar>" 1024] assms by simp
  then show ?thesis by (simp add: fl_def Let_def)
qed

lemma fl_exact:
  assumes "x = of_int i * 2 powi k" "\<bar>i\<bar> < 2 ^ 53" "- 1074 \<le> k" "\<bar>x\<bar> < 2 powi 1024"
  shows "fl x = Fin x"
  using fl_of_rnd [of x] rnd_exact [OF assms(1-3)] assms(4) by simp

lemma fl_of_int:
  assumes "\<bar>i\<bar> < 2 ^ 53"
  shows "fl (of_int i) = Fin (of_int i)"
proof (rule fl_exact [where i = i and k = 0])
  show "\<bar>i\<bar> < 2 ^ 53" by (rule assms)
  have "\<bar>of_int i :: real\<bar> = of_int \<bar>i\<bar>" by simp
  also have "\<dots> < of_int (2 ^ 53)" using assms by (simp only: of_int_less_iff)
  also have "\<dots> \<le> 2 powi 1024" by simp
  finally show "\<bar>of_int i :: real\<bar> < 2 powi 1024" .
qed simp_all

lemma numberOfNat_exact: "n < 2 ^ 53 \<Longrightarrow> numberOfNat n = Fin (real n)"
  using fl_of_int [of "int n"] by (simp add: numberOfNat_def)

lemma fl_zero: "fl 0 = Fin 0"
  by (simp add: fl_def rnd_def expo_def bitlen_alt_def)

lemma roundHalfEven_nonneg: "0 \<le> y \<Longrightarrow> 0 \<le> roundHalfEven y"
  by (simp add: roundHalfEven_def Let_def)

lemma rnd_nonneg: "0 \<le> x \<Longrightarrow> 0 \<le> rnd x"
  using ulp_pos [of x] by (simp add: rnd_def roundHalfEven_nonneg)

lemma fl_nonneg_cases:
  assumes "0 \<le> x"
  shows "fl x = PosInf \<or> (\<exists>r. fl x = Fin r \<and> 0 \<le> r)"
proof -
  have r: "0 \<le> rnd x" by (rule rnd_nonneg [OF assms])
  show ?thesis
  proof (cases "1024 \<le> expo \<bar>rnd x\<bar>")
    case True
    then have "rnd x \<noteq> 0" by (auto simp: expo_def bitlen_alt_def)
    with r True show ?thesis by (simp add: fl_def Let_def)
  next
    case False
    with r show ?thesis by (simp add: fl_def Let_def)
  qed
qed

section \<open>Evaluating the scenario\<close>

lemmas fl_eval = fl_def rnd_def ulp_def expo_def roundHalfEven_def Let_def compute_bitlen

lemmas number_ops = plus_number_def minus_number_def uminus_number_def times_number_def
  divide_number_def abs_number_def less_number_def less_eq_number_def signedInf_def

lemma scenario_has_calibration: "hasCalibration scenarioCalibrator"
  by (simp add: hasCalibration_def scenarioCalibrator_def newCalibrator_def)

lemma verdict_slouchedFrame: "verdict scenarioCalibrator (Some slouchedFrame) = Some True"
  by (simp add: verdict_def analyzePostureVsCalibration_def getCalibrationData_def
        scenarioCalibrator_def newCalibrator_def scenarioGood_def slouchedFrame_def
        number_ops fl_eval)

lemma verdict_goodFrame: "verdict scenarioCalibrator (Some goodFrame) = Some False"
  by (simp add: verdict_def analyzePostureVsCalibration_def getCalibrationData_def
        scenarioCalibrator_def newCalibrator_def scenarioGood_def goodFrame_def
        number_ops fl_eval)

section \<open>Refusing to start without a calibration\<close>

text \<open>
  C5. When the calibrator has no complete calibration (no calibration data at all, or the
  good or the slouched baseline missing), \<open>start\<close> returns false and the monitor is
  exactly what it was: monitoring stays off, and the counters, the alert flag, the
  timestamps and the statistics are untouched.
\<close>

theorem start_refused_without_calibration:
  "\<not> hasCalibration c \<Longrightarrow> start now c m = (False, m)"
  by (simp add: start_def)

theorem start_refused_without_calibration_witness:
  "\<not> hasCalibration newCalibrator
   \<and> start 1000 newCalibrator newMonitor = (False, newMonitor)"
  using start_refused_without_calibration [of newCalibrator 1000 newMonitor]
  by (simp add: hasCalibration_def newCalibrator_def)

section \<open>The frame counters add up\<close>

lemma analyze_total:
  "hasCalibration c \<Longrightarrow> \<exists>a. analyzePostureVsCalibration c x = Inr a"
  by (auto simp: hasCalibration_def analyzePostureVsCalibration_def getCalibrationData_def
        Let_def split: option.splits prod.splits)

lemma processFrame_counts:
  assumes "analyzePostureVsCalibration c x = Inr a" "isMonitoring m"
  shows "totalFrames (stats (snd (snd (processFrame now c m (Some x))))) = totalFrames (stats m) + 1"
    and "stats_slouchFrames (stats (snd (snd (processFrame now c m (Some x)))))
          = stats_slouchFrames (stats m) + (if isSlouching a then 1 else 0)"
    and "goodFrames (stats (snd (snd (processFrame now c m (Some x)))))
          = goodFrames (stats m) + (if isSlouching a then 0 else 1)"
    and "isMonitoring (snd (snd (processFrame now c m (Some x))))"
  using assms by (simp_all add: processFrame_def Let_def split: prod.splits)

lemma processFrame_skip:
  "\<not> isMonitoring m \<or> frame = None \<Longrightarrow> processFrame now c m frame = (Inr None, [], m)"
  by (auto simp: processFrame_def split: option.splits)

lemma statsInv_call: "statsInv c m \<Longrightarrow> statsInv c (call c m k)"
proof (cases k)
  case (ProcessFrame now frame)
  assume inv: "statsInv c m"
  show ?thesis
  proof (cases "isMonitoring m \<and> frame \<noteq> None")
    case False
    then have "processFrame now c m frame = (Inr None, [], m)"
      by (intro processFrame_skip) auto
    with inv ProcessFrame show ?thesis by simp
  next
    case True
    then obtain x where x: "frame = Some x" by auto
    from True inv have "hasCalibration c" by (simp add: statsInv_def)
    then obtain a where a: "analyzePostureVsCalibration c x = Inr a"
      using analyze_total by blast
    from processFrame_counts [OF a, of m now] True inv ProcessFrame x show ?thesis
      by (simp add: statsInv_def)
  qed
qed (auto simp: statsInv_def start_def stop_def resetSession_def onSlouch_def onCorrection_def)

lemma statsInv_calls: "statsInv c m \<Longrightarrow> statsInv c (foldl (call c) m ks)"
  by (induction ks arbitrary: m) (simp_all add: statsInv_call)

text \<open>
  C10. After any sequence of calls of \<open>start\<close>, \<open>stop\<close>, \<open>processFrame\<close> (with or
  without a frame), \<open>resetSession\<close> and the two callback registrations on a new monitor,
  with the calibrator left as it is, the statistics satisfy
  \<open>totalFrames = slouchFrames + goodFrames\<close>. The empty sequence is the initial state.
\<close>

theorem stats_total_is_slouch_plus_good:
  "totalFrames (stats (foldl (call c) newMonitor ks))
     = stats_slouchFrames (stats (foldl (call c) newMonitor ks))
       + goodFrames (stats (foldl (call c) newMonitor ks))"
proof -
  have "statsInv c newMonitor" by (simp add: statsInv_def newMonitor_def)
  then have "statsInv c (foldl (call c) newMonitor ks)" by (rule statsInv_calls)
  then show ?thesis by (simp add: statsInv_def)
qed

section \<open>The debouncer\<close>

lemma feed_Cons:
  "feed c m ((now, frame) # fs) =
     (stepCalls now c m frame @ fst (feed c (stepState now c m frame) fs),
      snd (feed c (stepState now c m frame) fs))"
  by (simp add: stepCalls_def stepState_def split: prod.splits)

lemma step_config:
  "requiredSlouchFrames (stepState now c m frame) = requiredSlouchFrames m"
  "requiredGoodFrames (stepState now c m frame) = requiredGoodFrames m"
  "onSlouchDetected (stepState now c m frame) = onSlouchDetected m"
  "onPostureCorrected (stepState now c m frame) = onPostureCorrected m"
  "isMonitoring (stepState now c m frame) = isMonitoring m"
  by (simp_all add: stepState_def processFrame_def Let_def split: option.splits sum.splits prod.splits)

lemma step_slouching:
  assumes "isMonitoring m" "verdict c frame = Some True"
  shows "slouchFrames (stepState now c m frame) = slouchFrames m + 1"
    and "goodPostureFrames (stepState now c m frame) = 0"
    and "isCurrentlySlouched (stepState now c m frame)
           = (isCurrentlySlouched m \<or> requiredSlouchFrames m \<le> slouchFrames m + 1)"
    and "length (filter isSlouchCall (stepCalls now c m frame))
           = (if requiredSlouchFrames m \<le> slouchFrames m + 1 \<and> \<not> isCurrentlySlouched m
                 \<and> onSlouchDetected m then 1 else 0)"
    and "PostureCorrected \<notin> set (stepCalls now c m frame)"
  using assms
  by (auto simp: stepState_def stepCalls_def processFrame_def verdict_def Let_def
        split: option.splits sum.splits prod.splits)

lemma step_good:
  assumes "isMonitoring m" "verdict c frame = Some False"
  shows "slouchFrames (stepState now c m frame) = 0"
    and "goodPostureFrames (stepState now c m frame) = goodPostureFrames m + 1"
    and "isCurrentlySlouched (stepState now c m frame)
           = (isCurrentlySlouched m \<and> \<not> requiredGoodFrames m \<le> goodPostureFrames m + 1)"
    and "stepCalls now c m frame
           = (if isCurrentlySlouched m \<and> requiredGoodFrames m \<le> goodPostureFrames m + 1
                 \<and> onPostureCorrected m then [PostureCorrected] else [])"
  using assms
  by (auto simp: stepState_def stepCalls_def processFrame_def verdict_def Let_def
        split: option.splits sum.splits prod.splits)

lemma step_while_slouched:
  "isCurrentlySlouched m \<Longrightarrow> filter isSlouchCall (stepCalls now c m frame) = []"
  by (auto simp: stepCalls_def processFrame_def Let_def
        split: option.splits sum.splits prod.splits)

declare feed.simps(2) [simp del]

lemma feed_config:
  "requiredSlouchFrames (snd (feed c m fs)) = requiredSlouchFrames m
   \<and> requiredGoodFrames (snd (feed c m fs)) = requiredGoodFrames m
   \<and> onSlouchDetected (snd (feed c m fs)) = onSlouchDetected m
   \<and> onPostureCorrected (snd (feed c m fs)) = onPostureCorrected m
   \<and> isMonitoring (snd (feed c m fs)) = isMonitoring m"
proof (induction fs arbitrary: m)
  case Nil
  show ?case by simp
next
  case (Cons f fs)
  obtain now frame where f: "f = (now, frame)" by (cases f)
  show ?case using Cons [of "stepState now c m frame"] by (simp add: f feed_Cons step_config)
qed

lemma feed_slouching:
  assumes "isMonitoring m" "\<forall>f\<in>set fs. verdict c (snd f) = Some True"
  shows "slouchFrames (snd (feed c m fs)) = slouchFrames m + length fs
   \<and> isCurrentlySlouched (snd (feed c m fs))
       = (isCurrentlySlouched m \<or> (fs \<noteq> [] \<and> requiredSlouchFrames m \<le> slouchFrames m + length fs))
   \<and> length (filter isSlouchCall (fst (feed c m fs)))
       = (if \<not> isCurrentlySlouched m \<and> onSlouchDetected m \<and> fs \<noteq> []
             \<and> requiredSlouchFrames m \<le> slouchFrames m + length fs then 1 else 0)
   \<and> PostureCorrected \<notin> set (fst (feed c m fs))
   \<and> (fs \<noteq> [] \<longrightarrow> goodPostureFrames (snd (feed c m fs)) = 0)"
  using assms
proof (induction fs arbitrary: m)
  case Nil
  show ?case by simp
next
  case (Cons f fs)
  obtain now frame where f: "f = (now, frame)" by (cases f)
  let ?m = "stepState now c m frame"
  have v: "verdict c frame = Some True" using Cons.prems(2) f by simp
  have mon: "isMonitoring ?m" using Cons.prems(1) by (simp add: step_config)
  have rest: "\<forall>f\<in>set fs. verdict c (snd f) = Some True" using Cons.prems(2) by simp
  note IH = Cons.IH [OF mon rest]
  note st = step_slouching [OF Cons.prems(1) v, of now]
  show ?case
    using IH st by (auto simp: f feed_Cons step_config)
qed

lemma feed_good:
  assumes "isMonitoring m" "\<forall>f\<in>set fs. verdict c (snd f) = Some False"
  shows "goodPostureFrames (snd (feed c m fs)) = goodPostureFrames m + length fs
   \<and> isCurrentlySlouched (snd (feed c m fs))
       = (isCurrentlySlouched m \<and> (fs = [] \<or> goodPostureFrames m + length fs < requiredGoodFrames m))
   \<and> fst (feed c m fs)
       = (if isCurrentlySlouched m \<and> onPostureCorrected m \<and> fs \<noteq> []
             \<and> requiredGoodFrames m \<le> goodPostureFrames m + length fs
          then [PostureCorrected] else [])
   \<and> (fs \<noteq> [] \<longrightarrow> slouchFrames (snd (feed c m fs)) = 0)"
  using assms
proof (induction fs arbitrary: m)
  case Nil
  show ?case by simp
next
  case (Cons f fs)
  obtain now frame where f: "f = (now, frame)" by (cases f)
  let ?m = "stepState now c m frame"
  have v: "verdict c frame = Some False" using Cons.prems(2) f by simp
  have mon: "isMonitoring ?m" using Cons.prems(1) by (simp add: step_config)
  have rest: "\<forall>f\<in>set fs. verdict c (snd f) = Some False" using Cons.prems(2) by simp
  note IH = Cons.IH [OF mon rest]
  note st = step_good [OF Cons.prems(1) v, of now]
  show ?case
    using IH st by (auto simp: f feed_Cons step_config)
qed

lemma feed_while_slouched:
  assumes "\<forall>k<length gs. isCurrentlySlouched (snd (feed c m (take k gs)))"
  shows "filter isSlouchCall (fst (feed c m gs)) = []"
  using assms
proof (induction gs arbitrary: m)
  case Nil
  show ?case by simp
next
  case (Cons g gs)
  obtain now frame where g: "g = (now, frame)" by (cases g)
  let ?m = "stepState now c m frame"
  have s0: "isCurrentlySlouched m" using Cons.prems [rule_format, of 0] by simp
  have "\<forall>k<length gs. isCurrentlySlouched (snd (feed c ?m (take k gs)))"
  proof (intro allI impI)
    fix k assume "k < length gs"
    then show "isCurrentlySlouched (snd (feed c ?m (take k gs)))"
      using Cons.prems [rule_format, of "Suc k"] by (simp add: g feed_Cons)
  qed
  from Cons.IH [OF this] step_while_slouched [OF s0, of now c frame]
  show ?case by (simp add: g feed_Cons)
qed

section \<open>The slouch alert\<close>

lemma start_accepts:
  assumes "start t0 c m0 = (True, m)"
  shows "m = m0\<lparr> isMonitoring := True, sessionStartTime := Some t0, lastDriftCheck := Some t0,
           slouchFrames := 0, goodPostureFrames := 0, isCurrentlySlouched := False,
           stats := \<lparr> totalFrames = 0, stats_slouchFrames = 0, goodFrames = 0, alerts = 0 \<rparr> \<rparr>"
  using assms by (auto simp: start_def split: if_splits)

lemma started_scenario:
  "start 0 scenarioCalibrator (onCorrection (onSlouch newMonitor)) = (True, startedMonitor)"
  by (simp add: startedMonitor_def start_def scenario_has_calibration)

text \<open>
  C1. On a freshly started monitor with a slouch callback registered, a run of
  consecutive slouching frames calls \<open>onSlouchDetected\<close> not at all while it is shorter
  than \<open>requiredSlouchFrames\<close> and exactly once from that length on, which is when the
  monitor becomes SLOUCHED. Whatever frames follow, the callback is not called again as
  long as the monitor has not gone back to GOOD before them.
\<close>

theorem slouch_alert_fires_exactly_once:
  assumes "start t0 c m0 = (True, m)"
    and "onSlouchDetected m0"
    and "0 < requiredSlouchFrames m0"
    and "\<forall>f\<in>set fs. verdict c (snd f) = Some True"
  shows "length (filter isSlouchCall (fst (feed c m fs)))
           = (if length fs < requiredSlouchFrames m0 then 0 else 1)
       \<and> (isCurrentlySlouched (snd (feed c m fs)) \<longleftrightarrow> requiredSlouchFrames m0 \<le> length fs)
       \<and> (\<forall>gs. (\<forall>k<length gs. isCurrentlySlouched (snd (feed c (snd (feed c m fs)) (take k gs))))
              \<longrightarrow> filter isSlouchCall (fst (feed c (snd (feed c m fs)) gs)) = [])"
proof -
  note m = start_accepts [OF assms(1)]
  have mon: "isMonitoring m" and fresh: "slouchFrames m = 0" "\<not> isCurrentlySlouched m"
    and cfg: "requiredSlouchFrames m = requiredSlouchFrames m0" "onSlouchDetected m"
    using assms(2) by (simp_all add: m)
  from feed_slouching [OF mon assms(4)] fresh cfg assms(3)
  have "length (filter isSlouchCall (fst (feed c m fs)))
           = (if length fs < requiredSlouchFrames m0 then 0 else 1)"
    and "isCurrentlySlouched (snd (feed c m fs)) \<longleftrightarrow> requiredSlouchFrames m0 \<le> length fs"
    by auto
  then show ?thesis using feed_while_slouched by blast
qed

lemma all_replicate: "P x \<Longrightarrow> \<forall>f\<in>set (replicate n x). P f"
  by simp

theorem slouch_alert_fires_exactly_once_witness:
  "start 0 scenarioCalibrator (onCorrection (onSlouch newMonitor)) = (True, startedMonitor)
   \<and> onSlouchDetected (onCorrection (onSlouch newMonitor))
   \<and> 0 < requiredSlouchFrames (onCorrection (onSlouch newMonitor))
   \<and> verdict scenarioCalibrator (Some slouchedFrame) = Some True
   \<and> length (filter isSlouchCall
        (fst (feed scenarioCalibrator startedMonitor (replicate 99 (0, Some slouchedFrame))))) = 0
   \<and> length (filter isSlouchCall
        (fst (feed scenarioCalibrator startedMonitor (replicate 100 (0, Some slouchedFrame))))) = 1
   \<and> length (filter isSlouchCall
        (fst (feed scenarioCalibrator startedMonitor (replicate 150 (0, Some slouchedFrame))))) = 1
   \<and> isCurrentlySlouched
        (snd (feed scenarioCalibrator startedMonitor (replicate 100 (0, Some slouchedFrame))))"
proof -
  have a: "onSlouchDetected (onCorrection (onSlouch newMonitor))"
    and b: "0 < requiredSlouchFrames (onCorrection (onSlouch newMonitor))"
    and r: "requiredSlouchFrames (onCorrection (onSlouch newMonitor)) = 100"
    by (simp_all add: onCorrection_def onSlouch_def newMonitor_def)
  have v: "\<forall>f\<in>set (replicate n (0::int, Some slouchedFrame)).
             verdict scenarioCalibrator (snd f) = Some True" for n
    by (simp add: verdict_slouchedFrame)
  note t = slouch_alert_fires_exactly_once [OF started_scenario a b v]
  show ?thesis
    using t [of 99] t [of 100] t [of 150] a b started_scenario verdict_slouchedFrame
    by (simp add: r)
qed

section \<open>The correction\<close>

lemma startedMonitor_fields:
  "isMonitoring startedMonitor" "\<not> isCurrentlySlouched startedMonitor"
  "slouchFrames startedMonitor = 0" "goodPostureFrames startedMonitor = 0"
  "requiredSlouchFrames startedMonitor = 100" "requiredGoodFrames startedMonitor = 10"
  "onSlouchDetected startedMonitor" "onPostureCorrected startedMonitor"
  by (simp_all add: start_accepts [OF started_scenario] onCorrection_def onSlouch_def
        newMonitor_def)

lemma alertedMonitor_fields:
  "isMonitoring alertedMonitor" "isCurrentlySlouched alertedMonitor"
  "goodPostureFrames alertedMonitor = 0" "requiredGoodFrames alertedMonitor = 10"
  "onPostureCorrected alertedMonitor"
proof -
  have v: "\<forall>f\<in>set (replicate 100 (0::int, Some slouchedFrame)).
             verdict scenarioCalibrator (snd f) = Some True"
    by (simp add: verdict_slouchedFrame)
  note s = feed_slouching [OF startedMonitor_fields(1) v]
  note c = feed_config [of scenarioCalibrator startedMonitor
                           "replicate 100 (0, Some slouchedFrame)"]
  show "isMonitoring alertedMonitor" "isCurrentlySlouched alertedMonitor"
    "goodPostureFrames alertedMonitor = 0" "requiredGoodFrames alertedMonitor = 10"
    "onPostureCorrected alertedMonitor"
    using s c by (simp_all add: alertedMonitor_def startedMonitor_fields)
qed

lemma midStreakMonitor_fields:
  "isMonitoring midStreakMonitor" "isCurrentlySlouched midStreakMonitor"
  "goodPostureFrames midStreakMonitor = 5" "requiredGoodFrames midStreakMonitor = 10"
  "onPostureCorrected midStreakMonitor"
proof -
  have v: "\<forall>f\<in>set (replicate 5 (0::int, Some goodFrame)).
             verdict scenarioCalibrator (snd f) = Some False"
    by (simp add: verdict_goodFrame)
  note s = feed_good [OF alertedMonitor_fields(1) v]
  note c = feed_config [of scenarioCalibrator alertedMonitor "replicate 5 (0, Some goodFrame)"]
  show "isMonitoring midStreakMonitor" "isCurrentlySlouched midStreakMonitor"
    "goodPostureFrames midStreakMonitor = 5" "requiredGoodFrames midStreakMonitor = 10"
    "onPostureCorrected midStreakMonitor"
    using s c by (simp_all add: midStreakMonitor_def alertedMonitor_fields)
qed

text \<open>
  C2. In a SLOUCHED monitor with a correction callback registered, at the start of a good
  streak (the streak counter is 0, as every slouching frame, the one that raised the alert
  included, leaves it), a run of consecutive good frames calls \<open>onPostureCorrected\<close> not
  at all while it is shorter than \<open>requiredGoodFrames\<close>, and exactly once from that length
  on, which is when the state goes back to GOOD. A slouching frame resets the streak
  counter \<open>goodPostureFrames\<close> to 0 in whatever state it arrives.
\<close>

theorem posture_corrected_fires_once:
  assumes "isMonitoring m" and "isCurrentlySlouched m" and "onPostureCorrected m"
    and "goodPostureFrames m = 0" and "0 < requiredGoodFrames m"
    and "\<forall>f\<in>set fs. verdict c (snd f) = Some False"
  shows "fst (feed c m fs)
           = (if length fs < requiredGoodFrames m then [] else [PostureCorrected])
       \<and> (isCurrentlySlouched (snd (feed c m fs)) \<longleftrightarrow> length fs < requiredGoodFrames m)
       \<and> (\<forall>now m' x. isMonitoring m' \<and> verdict c (Some x) = Some True
              \<longrightarrow> goodPostureFrames (stepState now c m' (Some x)) = 0)"
  using feed_good [OF assms(1,6)] assms(2-5) step_slouching(2) by auto

theorem posture_corrected_fires_once_witness:
  "isMonitoring alertedMonitor \<and> isCurrentlySlouched alertedMonitor
   \<and> onPostureCorrected alertedMonitor \<and> goodPostureFrames alertedMonitor = 0
   \<and> 0 < requiredGoodFrames alertedMonitor
   \<and> verdict scenarioCalibrator (Some goodFrame) = Some False
   \<and> fst (feed scenarioCalibrator alertedMonitor (replicate 9 (0, Some goodFrame))) = []
   \<and> fst (feed scenarioCalibrator alertedMonitor (replicate 10 (0, Some goodFrame)))
       = [PostureCorrected]
   \<and> fst (feed scenarioCalibrator alertedMonitor (replicate 25 (0, Some goodFrame)))
       = [PostureCorrected]
   \<and> \<not> isCurrentlySlouched
         (snd (feed scenarioCalibrator alertedMonitor (replicate 10 (0, Some goodFrame))))
   \<and> verdict scenarioCalibrator (Some slouchedFrame) = Some True
   \<and> goodPostureFrames midStreakMonitor = 5
   \<and> goodPostureFrames (stepState 0 scenarioCalibrator midStreakMonitor (Some slouchedFrame)) = 0"
proof -
  have v: "\<forall>f\<in>set (replicate n (0::int, Some goodFrame)).
             verdict scenarioCalibrator (snd f) = Some False" for n
    by (simp add: verdict_goodFrame)
  have p: "0 < requiredGoodFrames alertedMonitor" by (simp add: alertedMonitor_fields)
  note t = posture_corrected_fires_once
             [OF alertedMonitor_fields(1,2,5,3) p v]
  show ?thesis
    using t [of 9] t [of 10] t [of 25] midStreakMonitor_fields(1,3)
    by (simp add: alertedMonitor_fields verdict_goodFrame verdict_slouchedFrame)
qed

section \<open>Coincident shoulders\<close>

lemma sub_self: "(a :: number) - a = Fin 0 \<or> a - a = NaN"
  by (cases a) (simp_all add: minus_number_def plus_number_def uminus_number_def fl_zero)

lemma sub_self_Fin: "Fin x - Fin x = Fin 0"
  by (simp add: minus_number_def plus_number_def uminus_number_def fl_zero)

lemma nonnegOrNaN_simps:
  "nonnegOrNaN NaN" "nonnegOrNaN PosInf" "\<not> nonnegOrNaN NegInf" "nonnegOrNaN (Fin r) = (0 \<le> r)"
  by (simp_all add: nonnegOrNaN_def)

lemma fl_nonnegOrNaN: "0 \<le> x \<Longrightarrow> nonnegOrNaN (fl x)"
  using fl_nonneg_cases [of x] by (auto simp: nonnegOrNaN_simps)

lemma square_nonnegOrNaN: "nonnegOrNaN ((a :: number) * a)"
  by (cases a) (simp_all add: times_number_def fl_nonnegOrNaN nonnegOrNaN_simps)

lemma add_nonnegOrNaN: "nonnegOrNaN a \<Longrightarrow> nonnegOrNaN b \<Longrightarrow> nonnegOrNaN (a + b)"
  by (cases a; cases b) (simp_all add: plus_number_def fl_nonnegOrNaN nonnegOrNaN_simps)

lemma jsqrt_nonnegOrNaN: "nonnegOrNaN (jsqrt a)"
  by (cases a) (simp_all add: jsqrt_def fl_nonnegOrNaN nonnegOrNaN_simps)

lemma calculateDistance_nonnegOrNaN: "nonnegOrNaN (calculateDistance p q)"
  by (simp add: calculateDistance_def Let_def jsqrt_nonnegOrNaN)

lemma zero_or_NaN_square: "a = Fin 0 \<or> a = NaN \<Longrightarrow> a * a = Fin 0 \<or> a * a = NaN"
  by (auto simp: times_number_def fl_zero)

lemma zero_or_NaN_add:
  "a = Fin 0 \<or> a = NaN \<Longrightarrow> b = Fin 0 \<or> b = NaN \<Longrightarrow> a + b = Fin 0 \<or> a + b = NaN"
  by (auto simp: plus_number_def fl_zero)

lemma calculateDistance_self: "calculateDistance p p = Fin 0 \<or> calculateDistance p p = NaN"
proof -
  have s: "a = Fin 0 \<or> a = NaN \<Longrightarrow> jsqrt a = Fin 0 \<or> jsqrt a = NaN" for a
    by (auto simp: jsqrt_def fl_zero)
  show ?thesis
    unfolding calculateDistance_def Let_def
    by (intro s zero_or_NaN_add zero_or_NaN_square sub_self)
qed

lemma calculateDistance_self_finite:
  "px p = Fin a \<Longrightarrow> py p = Fin b \<Longrightarrow> pz p = Fin d \<Longrightarrow> calculateDistance p p = Fin 0"
  by (simp add: calculateDistance_def Let_def sub_self_Fin times_number_def plus_number_def
        fl_zero jsqrt_def)

lemma div_by_zero_or_NaN:
  assumes "nonnegOrNaN d" "w = Fin 0 \<or> w = NaN"
  shows "d / w = PosInf \<or> d / w = NaN"
  using assms by (cases d) (auto simp: divide_number_def nonnegOrNaN_simps signedInf_def)

lemma abs_zero_or_NaN: "a = Fin 0 \<or> a = NaN \<Longrightarrow> \<bar>a\<bar> = Fin 0 \<or> \<bar>a\<bar> = NaN"
  by (auto simp: abs_number_def)

lemma zero_div_zero: "a = Fin 0 \<or> a = NaN \<Longrightarrow> w = Fin 0 \<or> w = NaN \<Longrightarrow> a / w = NaN"
  by (auto simp: divide_number_def signedInf_def)

lemma calculatePostureMetrics_present:
  assumes "leftShoulder l = Some ls" "rightShoulder l = Some rs" "leftHip l = Some lh"
    "rightHip l = Some rh" "leftEar l = Some le" "rightEar l = Some re" "nose l = Some n"
  shows "calculatePostureMetrics now (Some l) =
     Some \<lparr> headShoulderRatio =
               calculateDistance (getMidpoint le re) (getMidpoint ls rs) / calculateDistance ls rs,
            shoulderAsymmetry = \<bar>py ls - py rs\<bar> / calculateDistance ls rs,
            torsoAngle = calculateAngle (getMidpoint ls rs) (getMidpoint lh rh)
               \<lparr> px = px (getMidpoint lh rh), py = py (getMidpoint lh rh) + fl (1 / 10),
                 pz = pz (getMidpoint lh rh) \<rparr>,
            neckAngle = calculateAngle (getMidpoint ls rs) (getMidpoint le re) n,
            forwardLean = \<bar>pz (getMidpoint ls rs) - pz (getMidpoint lh rh)\<bar>,
            shoulderWidth = calculateDistance ls rs,
            timestamp = now \<rparr>"
  using assms by (simp add: calculatePostureMetrics_def Let_def)

text \<open>
  C3, as stated, fails: with both shoulders at the origin and the ears one unit above,
  the extraction returns a record, with an infinite head-shoulder ratio and a NaN
  shoulder asymmetry.
\<close>

theorem coincident_shoulders_give_a_record:
  "leftShoulder coincidentShoulders = rightShoulder coincidentShoulders
   \<and> calculatePostureMetrics 0 (Some coincidentShoulders) \<noteq> None
   \<and> map_option shoulderWidth (calculatePostureMetrics 0 (Some coincidentShoulders)) = Some (Fin 0)
   \<and> map_option headShoulderRatio (calculatePostureMetrics 0 (Some coincidentShoulders))
       = Some PosInf
   \<and> map_option shoulderAsymmetry (calculatePostureMetrics 0 (Some coincidentShoulders))
       = Some NaN"
proof -
  let ?o = "\<lparr> px = Fin 0, py = Fin 0, pz = Fin 0 \<rparr>"
  let ?le = "\<lparr> px = Fin 1, py = Fin 1, pz = Fin 0 \<rparr>"
  let ?re = "\<lparr> px = Fin (- 1), py = Fin 1, pz = Fin 0 \<rparr>"
  have w: "calculateDistance ?o ?o = Fin 0"
    by (rule calculateDistance_self_finite) simp_all
  have e: "getMidpoint ?le ?re = \<lparr> px = Fin 0, py = Fin 1, pz = Fin 0 \<rparr>"
    by (simp add: getMidpoint_def number_ops fl_eval)
  have s: "getMidpoint ?o ?o = ?o"
    by (simp add: getMidpoint_def number_ops fl_eval)
  have d: "calculateDistance \<lparr> px = Fin 0, py = Fin 1, pz = Fin 0 \<rparr> ?o = Fin 1"
    by (simp add: calculateDistance_def jsqrt_def number_ops fl_eval)
  have "calculatePostureMetrics 0 (Some coincidentShoulders) \<noteq> None"
    and "map_option shoulderWidth (calculatePostureMetrics 0 (Some coincidentShoulders)) = Some (Fin 0)"
    and "map_option headShoulderRatio (calculatePostureMetrics 0 (Some coincidentShoulders))
       = Some (Fin 1 / Fin 0)"
    and "map_option shoulderAsymmetry (calculatePostureMetrics 0 (Some coincidentShoulders))
       = Some (\<bar>Fin 0 - Fin 0\<bar> / Fin 0)"
    by (simp_all add: calculatePostureMetrics_def coincidentShoulders_def uprightLandmarks_def
          Let_def w e s d)
  moreover have "Fin 1 / Fin 0 = PosInf" "\<bar>Fin 0 - Fin 0\<bar> / Fin 0 = NaN"
    by (simp_all add: number_ops fl_zero)
  ultimately show ?thesis
    by (simp add: coincidentShoulders_def)
qed

text \<open>
  C3, amended. For every landmark set whose seven points are all present and whose left
  and right shoulder coincide, the extraction does not fail: it returns a record whose
  shoulder width is zero (NaN when a shoulder coordinate is not finite), whose shoulder
  asymmetry is NaN and whose head-shoulder ratio is infinite or NaN.
\<close>

theorem coincident_shoulders_metrics:
  assumes "leftShoulder l = Some s" and "rightShoulder l = Some s"
    and "leftHip l = Some lh" and "rightHip l = Some rh"
    and "leftEar l = Some le" and "rightEar l = Some re" and "nose l = Some n"
  shows "\<exists>m. calculatePostureMetrics now (Some l) = Some m
           \<and> (shoulderWidth m = Fin 0 \<or> shoulderWidth m = NaN)
           \<and> shoulderAsymmetry m = NaN
           \<and> (headShoulderRatio m = PosInf \<or> headShoulderRatio m = NaN)"
proof -
  note w = calculateDistance_self [of s]
  have a: "\<bar>py s - py s\<bar> / calculateDistance s s = NaN"
    by (intro zero_div_zero abs_zero_or_NaN sub_self w)
  have h: "calculateDistance (getMidpoint le re) (getMidpoint s s) / calculateDistance s s = PosInf
         \<or> calculateDistance (getMidpoint le re) (getMidpoint s s) / calculateDistance s s = NaN"
    by (intro div_by_zero_or_NaN calculateDistance_nonnegOrNaN w)
  show ?thesis
    using calculatePostureMetrics_present [OF assms, of now] w a h by auto
qed

theorem coincident_shoulders_metrics_witness:
  "leftShoulder coincidentShoulders = Some \<lparr> px = Fin 0, py = Fin 0, pz = Fin 0 \<rparr>
   \<and> rightShoulder coincidentShoulders = Some \<lparr> px = Fin 0, py = Fin 0, pz = Fin 0 \<rparr>
   \<and> leftHip coincidentShoulders \<noteq> None \<and> rightHip coincidentShoulders \<noteq> None
   \<and> leftEar coincidentShoulders \<noteq> None \<and> rightEar coincidentShoulders \<noteq> None
   \<and> nose coincidentShoulders \<noteq> None
   \<and> (\<exists>m. calculatePostureMetrics 7 (Some coincidentShoulders) = Some m
           \<and> (shoulderWidth m = Fin 0 \<or> shoulderWidth m = NaN)
           \<and> shoulderAsymmetry m = NaN
           \<and> (headShoulderRatio m = PosInf \<or> headShoulderRatio m = NaN))"
  using coincident_shoulders_metrics [of coincidentShoulders
          "\<lparr> px = Fin 0, py = Fin 0, pz = Fin 0 \<rparr>" _ _ _ _ _ 7]
  by (simp add: coincidentShoulders_def uprightLandmarks_def)

section \<open>Determinism of the extraction\<close>

lemma calculatePostureMetrics_timestamp:
  "map_option timestamp (calculatePostureMetrics now lms)
     = map_option (\<lambda>m. now) (calculatePostureMetrics now lms)"
  by (simp add: calculatePostureMetrics_def Let_def split: option.splits)

lemma upright_present: "calculatePostureMetrics now (Some uprightLandmarks) \<noteq> None"
  by (simp add: calculatePostureMetrics_def uprightLandmarks_def Let_def)

text \<open>
  C9, as stated, fails on the \<open>timestamp\<close> field: two evaluations on the same landmark
  set at different clock readings return different records.
\<close>

theorem two_evaluations_differ:
  "calculatePostureMetrics 0 (Some uprightLandmarks)
     \<noteq> calculatePostureMetrics 1 (Some uprightLandmarks)"
proof
  assume "calculatePostureMetrics 0 (Some uprightLandmarks)
            = calculatePostureMetrics 1 (Some uprightLandmarks)"
  then have "map_option timestamp (calculatePostureMetrics 0 (Some uprightLandmarks))
               = map_option timestamp (calculatePostureMetrics 1 (Some uprightLandmarks))"
    by simp
  then show False
    using upright_present [of 0] upright_present [of 1]
    by (auto simp: calculatePostureMetrics_timestamp)
qed

text \<open>
  C9, amended. Two evaluations on the same landmark set, at clock readings \<open>t\<close> and
  \<open>t'\<close>, both fail or both return a record, and the two records agree on every field
  but \<open>timestamp\<close>, which is the clock reading of the call: the result at \<open>t\<close> is the
  result at \<open>t'\<close> with the timestamp set to \<open>t\<close>.
\<close>

theorem metrics_deterministic_up_to_timestamp:
  "calculatePostureMetrics t lms
     = map_option (\<lambda>m. m\<lparr> timestamp := t \<rparr>) (calculatePostureMetrics t' lms)"
  by (simp add: calculatePostureMetrics_def Let_def split: option.splits)

section \<open>The calibrated classifier\<close>

lemma analyze_as_terms:
  assumes "calibrationData c = Some d" "goodPosture d = Some good"
  shows "analyzePostureVsCalibration c cur =
     Inr \<lparr> isSlouching = (2 \<le> length (exceededIssues (codeTerms good cur))
                           \<or> fl 35 < sumExceeded (codeTerms good cur)),
           issues = exceededIssues (codeTerms good cur),
           severity = (if fl 60 < sumExceeded (codeTerms good cur) then Severe
                       else if fl 40 < sumExceeded (codeTerms good cur) then Moderate else Mild),
           totalDeviation = sumExceeded (codeTerms good cur) \<rparr>"
  using assms
  by (simp add: analyzePostureVsCalibration_def getCalibrationData_def Let_def codeTerms_def
        exceededIssues_def sumExceeded_def)

text \<open>
  C4, as stated, fails on the divisor of the forward-lean term: leaning forward by 0.18
  against a baseline of 0.1 is the only issue, \<open>(diff / tolerance) * 15\<close> is about 40 and
  would make the frame a slouch, but the source divides by \<open>tolerance + 0.01\<close>, gets
  about 30, and returns not slouching.
\<close>

theorem lean_deviation_differs:
  "hasCalibration scenarioCalibrator
   \<and> verdict scenarioCalibrator (Some leaningFrame) = Some False
   \<and> claimedIsSlouching scenarioGood leaningFrame"
proof -
  have "verdict scenarioCalibrator (Some leaningFrame) = Some False"
    by (simp add: verdict_def analyzePostureVsCalibration_def getCalibrationData_def
        scenarioCalibrator_def newCalibrator_def scenarioGood_def leaningFrame_def goodFrame_def
        number_ops fl_eval)
  moreover have "claimedIsSlouching scenarioGood leaningFrame"
    by (simp add: claimedIsSlouching_def claimedTerms_def exceededIssues_def sumExceeded_def
        scenarioGood_def leaningFrame_def goodFrame_def number_ops fl_eval)
  ultimately show ?thesis by (simp add: scenario_has_calibration)
qed

text \<open>
  C4, amended. For every metrics record and every complete calibration profile, the
  classifier returns \<open>isSlouching = (issues \<ge> 2 or totalDeviation > 35)\<close>, severity severe
  above 60, moderate above 40, mild otherwise, where \<open>totalDeviation\<close> adds, for each
  exceeded feature, \<open>(diff / divisor) * weight\<close> with the weights 30, 20, 25, 20, 15; the
  divisor is the tolerance for headShoulderRatio (20% of the baseline), torsoAngle (18)
  and neckAngle (20), and the tolerance plus 0.01 for shoulderAsymmetry (baseline + 0.05)
  and forwardLean (30% of the baseline); \<open>diff\<close> is the absolute difference to the
  baseline, while shoulderAsymmetry counts as exceeded when the current value itself is
  above its tolerance.
\<close>

theorem classifier_verdict:
  assumes "hasCalibration c"
  shows "\<exists>d good a. calibrationData c = Some d \<and> goodPosture d = Some good
           \<and> analyzePostureVsCalibration c cur = Inr a
           \<and> issues a = exceededIssues (codeTerms good cur)
           \<and> totalDeviation a = sumExceeded (codeTerms good cur)
           \<and> isSlouching a = (2 \<le> length (issues a) \<or> fl 35 < totalDeviation a)
           \<and> severity a = (if fl 60 < totalDeviation a then Severe
                            else if fl 40 < totalDeviation a then Moderate else Mild)"
proof -
  from assms obtain d good where d: "calibrationData c = Some d" "goodPosture d = Some good"
    by (auto simp: hasCalibration_def split: option.splits)
  show ?thesis using d analyze_as_terms [OF d, of cur] by simp
qed

theorem classifier_verdict_witness:
  "hasCalibration scenarioCalibrator
   \<and> (\<exists>d good a. calibrationData scenarioCalibrator = Some d \<and> goodPosture d = Some good
           \<and> analyzePostureVsCalibration scenarioCalibrator slouchedFrame = Inr a
           \<and> issues a = exceededIssues (codeTerms good slouchedFrame)
           \<and> totalDeviation a = sumExceeded (codeTerms good slouchedFrame)
           \<and> isSlouching a = (2 \<le> length (issues a) \<or> fl 35 < totalDeviation a)
           \<and> severity a = (if fl 60 < totalDeviation a then Severe
                            else if fl 40 < totalDeviation a then Moderate else Mild))"
  using classifier_verdict [OF scenario_has_calibration, of slouchedFrame]
    scenario_has_calibration by simp

section \<open>The drift check\<close>

lemma deviation_self:
  "\<bar>((b :: number) - b) / b\<bar> = Fin 0 \<or> \<bar>(b - b) / b\<bar> = NaN"
  by (cases b)
    (simp_all add: minus_number_def plus_number_def uminus_number_def divide_number_def
       abs_number_def signedInf_def fl_zero)

lemma not_less_zero_or_NaN:
  assumes "Fin 0 < tolerance" "v = Fin 0 \<or> v = NaN"
  shows "\<not> tolerance < v"
  using assms by (cases tolerance) (auto simp: less_number_def)

lemma driftLoop_self:
  assumes "Fin 0 < tolerance" "\<forall>k\<in>set ks. \<exists>name get. k = (name, get)"
  shows "driftLoop tolerance B B ks = \<lparr> needed = False, reason = WithinRange \<rparr>"
  using assms(2)
proof (induction ks)
  case Nil
  show ?case by simp
next
  case (Cons k ks)
  obtain name get where k: "k = (name, get)" by (cases k)
  have "\<not> tolerance < \<bar>(get B - get B) / get B\<bar>"
    by (rule not_less_zero_or_NaN [OF assms(1) deviation_self])
  then show ?case using Cons by (simp add: k Let_def)
qed

lemma default_tolerance_positive: "Fin 0 < fl (15 / 100)"
  by (simp add: less_number_def fl_eval)

text \<open>
  C7. With a good-posture baseline \<open>B\<close> stored, the drift check on a sample equal to \<open>B\<close>
  reports that no recalibration is needed; the loop over the features does so for every
  tolerance above zero, the 0.15 of the source among them.
\<close>

theorem drift_check_on_baseline:
  assumes "calibrationData c = Some d" and "goodPosture d = Some B" and "Fin 0 < tolerance"
  shows "checkIfRecalibrationNeeded c B = \<lparr> needed = False, reason = WithinRange \<rparr>
       \<and> driftLoop tolerance B B metricKeys = \<lparr> needed = False, reason = WithinRange \<rparr>"
proof -
  have "driftLoop t B B metricKeys = \<lparr> needed = False, reason = WithinRange \<rparr>"
    if "Fin 0 < t" for t
    by (rule driftLoop_self [OF that]) (simp add: metricKeys_def)
  then show ?thesis
    using assms default_tolerance_positive by (simp add: checkIfRecalibrationNeeded_def)
qed

theorem drift_check_on_baseline_witness:
  "calibrationData scenarioCalibrator \<noteq> None
   \<and> map_option goodPosture (calibrationData scenarioCalibrator) = Some (Some scenarioGood)
   \<and> Fin 0 < Fin (1 / 1000)
   \<and> checkIfRecalibrationNeeded scenarioCalibrator scenarioGood
       = \<lparr> needed = False, reason = WithinRange \<rparr>
   \<and> driftLoop (Fin (1 / 1000)) scenarioGood scenarioGood metricKeys
       = \<lparr> needed = False, reason = WithinRange \<rparr>"
proof -
  have d: "calibrationData scenarioCalibrator =
             Some \<lparr> goodPosture = Some scenarioGood, slouchedPosture = Some scenarioSlouched,
                    calibratedAt = 0, otherPostures = Map.empty \<rparr>"
    by (simp add: scenarioCalibrator_def)
  have t: "Fin 0 < Fin (1 / 1000)" by (simp add: less_number_def)
  show ?thesis
    using drift_check_on_baseline [OF d _ t, of scenarioGood] d t by simp
qed

section \<open>Calibrating on identical frames\<close>

lemma sumCopies_0: "sumCopies 0 v = Fin 0"
  by (simp add: sumCopies_def)

lemma sumCopies_Suc: "sumCopies (Suc n) v = sumCopies n v + v"
proof -
  have "replicate (Suc n) v = replicate n v @ [v]" by (simp add: replicate_append_same)
  then show ?thesis by (simp only: sumCopies_def foldl_append foldl.simps)
qed

lemma foldl_sumFrame_replicate:
  "foldl sumFrame acc (replicate n M) =
     \<lparr> headShoulderRatio = foldl (+) (headShoulderRatio acc) (replicate n (headShoulderRatio M)),
       shoulderAsymmetry = foldl (+) (shoulderAsymmetry acc) (replicate n (shoulderAsymmetry M)),
       torsoAngle = foldl (+) (torsoAngle acc) (replicate n (torsoAngle M)),
       neckAngle = foldl (+) (neckAngle acc) (replicate n (neckAngle M)),
       forwardLean = foldl (+) (forwardLean acc) (replicate n (forwardLean M)) \<rparr>"
  by (induction n arbitrary: acc) (simp_all add: sumFrame_def)

lemma completeCalibration_replicate:
  assumes "0 < n"
  shows "completeCalibration now (c\<lparr> calibrationFrames := replicate n M \<rparr>) =
     (let avg = \<lparr> headShoulderRatio = meanOfCopies n (headShoulderRatio M),
                   shoulderAsymmetry = meanOfCopies n (shoulderAsymmetry M),
                   torsoAngle = meanOfCopies n (torsoAngle M),
                   neckAngle = meanOfCopies n (neckAngle M),
                   forwardLean = meanOfCopies n (forwardLean M) \<rparr>;
          d = (case calibrationData c of
                 None \<Rightarrow> \<lparr> goodPosture = None, slouchedPosture = None,
                            calibratedAt = now, otherPostures = Map.empty \<rparr>
               | Some d0 \<Rightarrow> d0)
      in (Some avg,
          c\<lparr> calibrationFrames := replicate n M,
             calibrationData := Some (storePosture (postureKey (currentPostureType c)) avg d),
             isCalibrating := False \<rparr>))"
  using assms
  by (simp add: completeCalibration_def Let_def foldl_sumFrame_replicate meanOfCopies_def
        sumCopies_def)

lemma addFrames_Suc:
  "addFrames now M (Suc k) c = snd (addCalibrationFrame now (addFrames now M k c) (Some M))"
  by (simp add: addFrames_def)

lemma addFrames_collecting:
  assumes "isCalibrating c" "calibrationFrames c = []" "k < requiredFrames c"
  shows "addFrames now M k c = c\<lparr> calibrationFrames := replicate k M \<rparr>"
  using assms(3)
proof (induction k)
  case 0
  show ?case using assms(2) by (simp add: addFrames_def)
next
  case (Suc k)
  then have "addFrames now M k c = c\<lparr> calibrationFrames := replicate k M \<rparr>" by simp
  then show ?case
    using Suc.prems assms(1)
    by (simp add: addFrames_Suc addCalibrationFrame_def Let_def replicate_append_same)
qed

lemma addFrames_complete:
  assumes "isCalibrating c" "calibrationFrames c = []" "0 < requiredFrames c"
  shows "addFrames now M (requiredFrames c) c
           = snd (completeCalibration now (c\<lparr> calibrationFrames := replicate (requiredFrames c) M \<rparr>))"
proof -
  obtain k where k: "requiredFrames c = Suc k" using assms(3) by (cases "requiredFrames c") auto
  have "addFrames now M k c = c\<lparr> calibrationFrames := replicate k M \<rparr>"
    using addFrames_collecting [OF assms(1,2), of k] k by simp
  then show ?thesis
    using assms(1) k
    by (simp add: addFrames_Suc addCalibrationFrame_def Let_def replicate_append_same)
qed

lemma storedPosture_storePosture: "storedPosture k (storePosture k v d) = Some v"
  by (simp add: storedPosture_def storePosture_def)

lemma calibration_of_copies:
  assumes "0 < requiredFrames c"
  shows "\<not> isCalibrating (addFrames now M (requiredFrames c) (startCalibration (Some kind) c))
       \<and> baselineFor kind (addFrames now M (requiredFrames c) (startCalibration (Some kind) c))
           = Some \<lparr> headShoulderRatio = meanOfCopies (requiredFrames c) (headShoulderRatio M),
                    shoulderAsymmetry = meanOfCopies (requiredFrames c) (shoulderAsymmetry M),
                    torsoAngle = meanOfCopies (requiredFrames c) (torsoAngle M),
                    neckAngle = meanOfCopies (requiredFrames c) (neckAngle M),
                    forwardLean = meanOfCopies (requiredFrames c) (forwardLean M) \<rparr>"
proof -
  let ?c = "startCalibration (Some kind) c"
  have s: "isCalibrating ?c" "calibrationFrames ?c = []" "requiredFrames ?c = requiredFrames c"
    "currentPostureType ?c = Some kind"
    by (simp_all add: startCalibration_def)
  have "addFrames now M (requiredFrames c) ?c
          = snd (completeCalibration now (?c\<lparr> calibrationFrames := replicate (requiredFrames c) M \<rparr>))"
    using addFrames_complete [OF s(1,2), of now M] assms s(3) by simp
  then show ?thesis
    using assms
    by (simp add: completeCalibration_replicate Let_def s baselineFor_def postureKey_def
          storedPosture_storePosture)
qed

lemma sumCopies_exact:
  assumes "exactMultiples n (Fin r)" "k \<le> n"
  shows "sumCopies k (Fin r) = Fin (real k * r)"
  using assms(2)
proof (induction k)
  case 0
  show ?case by (simp add: sumCopies_0)
next
  case (Suc k)
  have mem: "Suc k \<in> set [1..<Suc n]" using Suc.prems by auto
  have all: "\<forall>j\<in>set [1..<Suc n]. fl (real j * r) = Fin (real j * r)"
    using assms(1) by (simp add: exactMultiples_def list_all_iff)
  have "fl (real (Suc k) * r) = Fin (real (Suc k) * r)" by (rule bspec [OF all mem])
  moreover have "real k * r + r = real (Suc k) * r" by (simp add: algebra_simps)
  ultimately show ?case using Suc by (simp add: sumCopies_Suc plus_number_def)
qed

lemma meanOfCopies_exact:
  assumes "exactMultiples n v" "0 < n" "n < 2 ^ 53"
  shows "meanOfCopies n v = v"
proof -
  from assms(1) obtain r where v: "v = Fin r" by (cases v) (simp_all add: exactMultiples_def)
  have one: "fl r = Fin r"
  proof -
    have mem: "1 \<in> set [1..<Suc n]" using assms(2) by auto
    have all: "\<forall>j\<in>set [1..<Suc n]. fl (real j * r) = Fin (real j * r)"
      using assms(1) by (simp add: exactMultiples_def list_all_iff v)
    have "fl (real 1 * r) = Fin (real 1 * r)" by (rule bspec [OF all mem])
    then show ?thesis by simp
  qed
  have "sumCopies n v = Fin (real n * r)"
    using sumCopies_exact [of n r n] assms(1) v by simp
  then show ?thesis
    using assms(2) one by (simp add: meanOfCopies_def numberOfNat_exact [OF assms(3)] v divide_number_def)
qed

lemma headShoulderRatio_goodFrame:
  "headShoulderRatio goodFrame = Fin (5404319552844595 / 18014398509481984)"
  by (simp add: goodFrame_def fl_eval)

lemma sumCopies_three_tenths:
  "sumCopies 60 (Fin (5404319552844595 / 18014398509481984)) = Fin (2533274790395907 / 140737488355328)"
proof -
  let ?x = "Fin (5404319552844595 / 18014398509481984)"
  have s0: "sumCopies 0 ?x = Fin 0" by (rule sumCopies_0)
  have s1: "sumCopies 1 ?x = Fin (5404319552844595 / 18014398509481984)"
    using sumCopies_Suc [of 0 ?x] s0 by (simp add: plus_number_def fl_eval)
  have s2: "sumCopies 2 ?x = Fin (5404319552844595 / 9007199254740992)"
    using sumCopies_Suc [of 1 ?x] s1 by (simp add: plus_number_def fl_eval numeral_2_eq_2)
  have s3: "sumCopies 3 ?x = Fin (2026619832316723 / 2251799813685248)"
    using sumCopies_Suc [of 2 ?x] s2 by (simp add: plus_number_def fl_eval)
  have s4: "sumCopies 4 ?x = Fin (5404319552844595 / 4503599627370496)"
    using sumCopies_Suc [of 3 ?x] s3 by (simp add: plus_number_def fl_eval)
  have s5: "sumCopies 5 ?x = Fin (3 / 2)"
    using sumCopies_Suc [of 4 ?x] s4 by (simp add: plus_number_def fl_eval)
  have s6: "sumCopies 6 ?x = Fin (8106479329266893 / 4503599627370496)"
    using sumCopies_Suc [of 5 ?x] s5 by (simp add: plus_number_def fl_eval)
  have s7: "sumCopies 7 ?x = Fin (4728779608739021 / 2251799813685248)"
    using sumCopies_Suc [of 6 ?x] s6 by (simp add: plus_number_def fl_eval)
  have s8: "sumCopies 8 ?x = Fin (5404319552844595 / 2251799813685248)"
    using sumCopies_Suc [of 7 ?x] s7 by (simp add: plus_number_def fl_eval)
  have s9: "sumCopies 9 ?x = Fin (6079859496950169 / 2251799813685248)"
    using sumCopies_Suc [of 8 ?x] s8 by (simp add: plus_number_def fl_eval)
  have s10: "sumCopies 10 ?x = Fin (6755399441055743 / 2251799813685248)"
    using sumCopies_Suc [of 9 ?x] s9 by (simp add: plus_number_def fl_eval)
  have s11: "sumCopies 11 ?x = Fin (7430939385161317 / 2251799813685248)"
    using sumCopies_Suc [of 10 ?x] s10 by (simp add: plus_number_def fl_eval)
  have s12: "sumCopies 12 ?x = Fin (8106479329266891 / 2251799813685248)"
    using sumCopies_Suc [of 11 ?x] s11 by (simp add: plus_number_def fl_eval)
  have s13: "sumCopies 13 ?x = Fin (8782019273372465 / 2251799813685248)"
    using sumCopies_Suc [of 12 ?x] s12 by (simp add: plus_number_def fl_eval)
  have s14: "sumCopies 14 ?x = Fin (1182194902184755 / 281474976710656)"
    using sumCopies_Suc [of 13 ?x] s13 by (simp add: plus_number_def fl_eval)
  have s15: "sumCopies 15 ?x = Fin (5066549580791807 / 1125899906842624)"
    using sumCopies_Suc [of 14 ?x] s14 by (simp add: plus_number_def fl_eval)
  have s16: "sumCopies 16 ?x = Fin (2702159776422297 / 562949953421312)"
    using sumCopies_Suc [of 15 ?x] s15 by (simp add: plus_number_def fl_eval)
  have s17: "sumCopies 17 ?x = Fin (5742089524897381 / 1125899906842624)"
    using sumCopies_Suc [of 16 ?x] s16 by (simp add: plus_number_def fl_eval)
  have s18: "sumCopies 18 ?x = Fin (759982437118771 / 140737488355328)"
    using sumCopies_Suc [of 17 ?x] s17 by (simp add: plus_number_def fl_eval)
  have s19: "sumCopies 19 ?x = Fin (6417629469002955 / 1125899906842624)"
    using sumCopies_Suc [of 18 ?x] s18 by (simp add: plus_number_def fl_eval)
  have s20: "sumCopies 20 ?x = Fin (3377699720527871 / 562949953421312)"
    using sumCopies_Suc [of 19 ?x] s19 by (simp add: plus_number_def fl_eval)
  have s21: "sumCopies 21 ?x = Fin (7093169413108529 / 1125899906842624)"
    using sumCopies_Suc [of 20 ?x] s20 by (simp add: plus_number_def fl_eval)
  have s22: "sumCopies 22 ?x = Fin (1857734846290329 / 281474976710656)"
    using sumCopies_Suc [of 21 ?x] s21 by (simp add: plus_number_def fl_eval)
  have s23: "sumCopies 23 ?x = Fin (7768709357214103 / 1125899906842624)"
    using sumCopies_Suc [of 22 ?x] s22 by (simp add: plus_number_def fl_eval)
  have s24: "sumCopies 24 ?x = Fin (4053239664633445 / 562949953421312)"
    using sumCopies_Suc [of 23 ?x] s23 by (simp add: plus_number_def fl_eval)
  have s25: "sumCopies 25 ?x = Fin (8444249301319677 / 1125899906842624)"
    using sumCopies_Suc [of 24 ?x] s24 by (simp add: plus_number_def fl_eval)
  have s26: "sumCopies 26 ?x = Fin (548876204585779 / 70368744177664)"
    using sumCopies_Suc [of 25 ?x] s25 by (simp add: plus_number_def fl_eval)
  have s27: "sumCopies 27 ?x = Fin (2279947311356313 / 281474976710656)"
    using sumCopies_Suc [of 26 ?x] s26 by (simp add: plus_number_def fl_eval)
  have s28: "sumCopies 28 ?x = Fin (1182194902184755 / 140737488355328)"
    using sumCopies_Suc [of 27 ?x] s27 by (simp add: plus_number_def fl_eval)
  have s29: "sumCopies 29 ?x = Fin (2448832297382707 / 281474976710656)"
    using sumCopies_Suc [of 28 ?x] s28 by (simp add: plus_number_def fl_eval)
  have s30: "sumCopies 30 ?x = Fin (9)"
    using sumCopies_Suc [of 29 ?x] s29 by (simp add: plus_number_def fl_eval)
  have s31: "sumCopies 31 ?x = Fin (2617717283409101 / 281474976710656)"
    using sumCopies_Suc [of 30 ?x] s30 by (simp add: plus_number_def fl_eval)
  have s32: "sumCopies 32 ?x = Fin (1351079888211149 / 140737488355328)"
    using sumCopies_Suc [of 31 ?x] s31 by (simp add: plus_number_def fl_eval)
  have s33: "sumCopies 33 ?x = Fin (2786602269435495 / 281474976710656)"
    using sumCopies_Suc [of 32 ?x] s32 by (simp add: plus_number_def fl_eval)
  have s34: "sumCopies 34 ?x = Fin (717761190612173 / 70368744177664)"
    using sumCopies_Suc [of 33 ?x] s33 by (simp add: plus_number_def fl_eval)
  have s35: "sumCopies 35 ?x = Fin (2955487255461889 / 281474976710656)"
    using sumCopies_Suc [of 34 ?x] s34 by (simp add: plus_number_def fl_eval)
  have s36: "sumCopies 36 ?x = Fin (1519964874237543 / 140737488355328)"
    using sumCopies_Suc [of 35 ?x] s35 by (simp add: plus_number_def fl_eval)
  have s37: "sumCopies 37 ?x = Fin (3124372241488283 / 281474976710656)"
    using sumCopies_Suc [of 36 ?x] s36 by (simp add: plus_number_def fl_eval)
  have s38: "sumCopies 38 ?x = Fin (401101841812685 / 35184372088832)"
    using sumCopies_Suc [of 37 ?x] s37 by (simp add: plus_number_def fl_eval)
  have s39: "sumCopies 39 ?x = Fin (3293257227514677 / 281474976710656)"
    using sumCopies_Suc [of 38 ?x] s38 by (simp add: plus_number_def fl_eval)
  have s40: "sumCopies 40 ?x = Fin (1688849860263937 / 140737488355328)"
    using sumCopies_Suc [of 39 ?x] s39 by (simp add: plus_number_def fl_eval)
  have s41: "sumCopies 41 ?x = Fin (3462142213541071 / 281474976710656)"
    using sumCopies_Suc [of 40 ?x] s40 by (simp add: plus_number_def fl_eval)
  have s42: "sumCopies 42 ?x = Fin (886646176638567 / 70368744177664)"
    using sumCopies_Suc [of 41 ?x] s41 by (simp add: plus_number_def fl_eval)
  have s43: "sumCopies 43 ?x = Fin (3631027199567465 / 281474976710656)"
    using sumCopies_Suc [of 42 ?x] s42 by (simp add: plus_number_def fl_eval)
  have s44: "sumCopies 44 ?x = Fin (1857734846290331 / 140737488355328)"
    using sumCopies_Suc [of 43 ?x] s43 by (simp add: plus_number_def fl_eval)
  have s45: "sumCopies 45 ?x = Fin (3799912185593859 / 281474976710656)"
    using sumCopies_Suc [of 44 ?x] s44 by (simp add: plus_number_def fl_eval)
  have s46: "sumCopies 46 ?x = Fin (242772167412941 / 17592186044416)"
    using sumCopies_Suc [of 45 ?x] s45 by (simp add: plus_number_def fl_eval)
  have s47: "sumCopies 47 ?x = Fin (3968797171620253 / 281474976710656)"
    using sumCopies_Suc [of 46 ?x] s46 by (simp add: plus_number_def fl_eval)
  have s48: "sumCopies 48 ?x = Fin (2026619832316725 / 140737488355328)"
    using sumCopies_Suc [of 47 ?x] s47 by (simp add: plus_number_def fl_eval)
  have s49: "sumCopies 49 ?x = Fin (4137682157646647 / 281474976710656)"
    using sumCopies_Suc [of 48 ?x] s48 by (simp add: plus_number_def fl_eval)
  have s50: "sumCopies 50 ?x = Fin (1055531162664961 / 70368744177664)"
    using sumCopies_Suc [of 49 ?x] s49 by (simp add: plus_number_def fl_eval)
  have s51: "sumCopies 51 ?x = Fin (4306567143673041 / 281474976710656)"
    using sumCopies_Suc [of 50 ?x] s50 by (simp add: plus_number_def fl_eval)
  have s52: "sumCopies 52 ?x = Fin (2195504818343119 / 140737488355328)"
    using sumCopies_Suc [of 51 ?x] s51 by (simp add: plus_number_def fl_eval)
  have s53: "sumCopies 53 ?x = Fin (4475452129699435 / 281474976710656)"
    using sumCopies_Suc [of 52 ?x] s52 by (simp add: plus_number_def fl_eval)
  have s54: "sumCopies 54 ?x = Fin (569986827839079 / 35184372088832)"
    using sumCopies_Suc [of 53 ?x] s53 by (simp add: plus_number_def fl_eval)
  have s55: "sumCopies 55 ?x = Fin (4644337115725829 / 281474976710656)"
    using sumCopies_Suc [of 54 ?x] s54 by (simp add: plus_number_def fl_eval)
  have s56: "sumCopies 56 ?x = Fin (2364389804369513 / 140737488355328)"
    using sumCopies_Suc [of 55 ?x] s55 by (simp add: plus_number_def fl_eval)
  have s57: "sumCopies 57 ?x = Fin (4813222101752223 / 281474976710656)"
    using sumCopies_Suc [of 56 ?x] s56 by (simp add: plus_number_def fl_eval)
  have s58: "sumCopies 58 ?x = Fin (1224416148691355 / 70368744177664)"
    using sumCopies_Suc [of 57 ?x] s57 by (simp add: plus_number_def fl_eval)
  have s59: "sumCopies 59 ?x = Fin (4982107087778617 / 281474976710656)"
    using sumCopies_Suc [of 58 ?x] s58 by (simp add: plus_number_def fl_eval)
  have s60: "sumCopies 60 ?x = Fin (2533274790395907 / 140737488355328)"
    using sumCopies_Suc [of 59 ?x] s59 by (simp add: plus_number_def fl_eval)
  show ?thesis by (rule s60)
qed

lemma meanOfCopies_three_tenths:
  "meanOfCopies 60 (Fin (5404319552844595 / 18014398509481984)) = Fin (2702159776422301 / 9007199254740992)"
  by (simp add: meanOfCopies_def sumCopies_three_tenths numberOfNat_def divide_number_def fl_eval)

text \<open>
  C6, as stated, fails in floating point: sixty frames with the head-shoulder ratio 0.3
  of the scenario are averaged to 0.3000000000000004, because the running sums are
  rounded.
\<close>

theorem averaging_three_tenths:
  "requiredFrames newCalibrator = 60
   \<and> \<not> isCalibrating (addFrames 0 goodFrame 60 (startCalibration (Some ''good'') newCalibrator))
   \<and> map_option headShoulderRatio
         (baselineFor ''good'' (addFrames 0 goodFrame 60 (startCalibration (Some ''good'') newCalibrator)))
       \<noteq> Some (headShoulderRatio goodFrame)"
proof -
  have n: "requiredFrames newCalibrator = 60" by (simp add: newCalibrator_def)
  have p: "0 < requiredFrames newCalibrator" by (simp add: n)
  note c = calibration_of_copies [OF p, of 0 goodFrame "''good''", unfolded n]
  from c have "map_option headShoulderRatio
         (baselineFor ''good'' (addFrames 0 goodFrame 60 (startCalibration (Some ''good'') newCalibrator)))
       = Some (meanOfCopies 60 (headShoulderRatio goodFrame))"
    by simp
  then show ?thesis
    using c by (simp add: n headShoulderRatio_goodFrame meanOfCopies_three_tenths)
qed

lemma exactMultiples_dyadic:
  assumes "\<bar>i\<bar> * int n < 2 ^ 53" "- 1074 \<le> e" "e \<le> 971"
  shows "exactMultiples n (Fin (of_int i * 2 powi e))"
proof -
  have "fl (real j * (of_int i * 2 powi e)) = Fin (real j * (of_int i * 2 powi e))"
    if j: "j \<in> set [1..<Suc n]" for j
  proof (rule fl_exact [where i = "int j * i" and k = e])
    show "real j * (of_int i * 2 powi e) = of_int (int j * i) * 2 powi e" by simp
    have jn: "int j \<le> int n" using j by auto
    have "\<bar>int j * i\<bar> = \<bar>i\<bar> * int j" by (simp add: abs_mult mult.commute)
    also have "\<dots> \<le> \<bar>i\<bar> * int n" using jn by (intro mult_left_mono) simp_all
    finally show b: "\<bar>int j * i\<bar> < 2 ^ 53" using assms(1) by simp
    show "- 1074 \<le> e" by (rule assms(2))
    have "\<bar>real j * (of_int i * 2 powi e)\<bar> = of_int \<bar>int j * i\<bar> * 2 powi e"
      by (simp add: abs_mult)
    also have "\<dots> < of_int (2 ^ 53) * 2 powi e"
      using b by (intro mult_strict_right_mono) (simp_all only: of_int_less_iff zero_less_power_int zero_less_numeral)
    also have "\<dots> = 2 powi (53 + e)" by (simp add: power_int_add)
    also have "\<dots> \<le> 2 powi 1024" using assms(3) by (intro power_int_increasing) simp_all
    finally show "\<bar>real j * (of_int i * 2 powi e)\<bar> < 2 powi 1024" .
  qed
  then show ?thesis by (simp add: exactMultiples_def list_all_iff)
qed

text \<open>
  C6, amended. After \<open>startCalibration\<close> and \<open>requiredFrames\<close> calls of
  \<open>addCalibrationFrame\<close> with the same frame \<open>M\<close>, the calibrator has left the collecting
  state and the baseline stored for the posture type is, feature by feature, the mean
  that the source computes in floating point: the copies added up from 0, then divided
  by their number. On a feature whose value is finite and whose multiples up to
  \<open>requiredFrames\<close> are doubles the sums are exact and the mean is the value itself; when
  that holds for the five features, the baseline equals \<open>M\<close> on them.
\<close>

theorem calibration_of_identical_frames:
  assumes "0 < requiredFrames c" and "requiredFrames c < 2 ^ 53"
  shows "\<not> isCalibrating (addFrames now M (requiredFrames c) (startCalibration (Some kind) c))
       \<and> baselineFor kind (addFrames now M (requiredFrames c) (startCalibration (Some kind) c))
           = Some \<lparr> headShoulderRatio = meanOfCopies (requiredFrames c) (headShoulderRatio M),
                    shoulderAsymmetry = meanOfCopies (requiredFrames c) (shoulderAsymmetry M),
                    torsoAngle = meanOfCopies (requiredFrames c) (torsoAngle M),
                    neckAngle = meanOfCopies (requiredFrames c) (neckAngle M),
                    forwardLean = meanOfCopies (requiredFrames c) (forwardLean M) \<rparr>
       \<and> (exactMultiples (requiredFrames c) (headShoulderRatio M)
            \<and> exactMultiples (requiredFrames c) (shoulderAsymmetry M)
            \<and> exactMultiples (requiredFrames c) (torsoAngle M)
            \<and> exactMultiples (requiredFrames c) (neckAngle M)
            \<and> exactMultiples (requiredFrames c) (forwardLean M)
          \<longrightarrow> baselineFor kind (addFrames now M (requiredFrames c) (startCalibration (Some kind) c))
                = Some (features M))"
  using calibration_of_copies [OF assms(1), of now M kind]
    meanOfCopies_exact [OF _ assms]
  by (simp add: features_def)

theorem calibration_of_identical_frames_witness:
  "0 < requiredFrames newCalibrator \<and> requiredFrames newCalibrator < 2 ^ 53
   \<and> exactMultiples 60 (headShoulderRatio dyadicFrame)
   \<and> exactMultiples 60 (shoulderAsymmetry dyadicFrame)
   \<and> exactMultiples 60 (torsoAngle dyadicFrame)
   \<and> exactMultiples 60 (neckAngle dyadicFrame)
   \<and> exactMultiples 60 (forwardLean dyadicFrame)
   \<and> \<not> isCalibrating (addFrames 0 dyadicFrame 60 (startCalibration (Some ''good'') newCalibrator))
   \<and> baselineFor ''good'' (addFrames 0 dyadicFrame 60 (startCalibration (Some ''good'') newCalibrator))
       = Some (features dyadicFrame)"
proof -
  have n: "requiredFrames newCalibrator = 60" by (simp add: newCalibrator_def)
  have e: "exactMultiples 60 (headShoulderRatio dyadicFrame)"
    "exactMultiples 60 (shoulderAsymmetry dyadicFrame)"
    "exactMultiples 60 (torsoAngle dyadicFrame)"
    "exactMultiples 60 (neckAngle dyadicFrame)"
    "exactMultiples 60 (forwardLean dyadicFrame)"
    using exactMultiples_dyadic [of 1 60 "- 2"] exactMultiples_dyadic [of 0 60 0]
      exactMultiples_dyadic [of 5 60 0] exactMultiples_dyadic [of 10 60 0]
      exactMultiples_dyadic [of 1 60 "- 3"]
    by (simp_all add: dyadicFrame_def)
  have p: "0 < requiredFrames newCalibrator" "requiredFrames newCalibrator < 2 ^ 53"
    by (simp_all add: n)
  note t = calibration_of_identical_frames [OF p, of 0 dyadicFrame "''good''", unfolded n]
  from t have c1: "\<not> isCalibrating
      (addFrames 0 dyadicFrame 60 (startCalibration (Some ''good'') newCalibrator))"
    by blast
  from t e have c2: "baselineFor ''good''
      (addFrames 0 dyadicFrame 60 (startCalibration (Some ''good'') newCalibrator))
        = Some (features dyadicFrame)"
    by blast
  show ?thesis using c1 c2 e p by simp
qed

section \<open>The posture quality\<close>

lemma showNat_digit: "n < 10 \<Longrightarrow> showNat n = [''0123456789'' ! n]"
  by (subst showNat.simps) simp

lemma showNat_more: "10 \<le> n \<Longrightarrow> showNat n = showNat (n div 10) @ showNat (n mod 10)"
  by (subst showNat.simps) (simp add: showNat_digit)

lemma showNat_nonempty: "showNat n \<noteq> []"
  by (subst showNat.simps) simp

lemma showNat_zero: "showNat 0 = ''0''"
  by (simp add: showNat_digit)

lemma toFixed_one:
  assumes "0 \<le> v" "v < 10 ^ 21"
  shows "toFixed 1 (Fin v) = Some (oneDecimal (nat \<lfloor>v * 10 + 1 / 2\<rfloor>))"
proof -
  define n where "n = nat \<lfloor>v * 10 + 1 / 2\<rfloor>"
  have split: "take (length (padZeros (1 + 1) (showNat n)) - 1) (padZeros (1 + 1) (showNat n))
                 = showNat (n div 10)
             \<and> drop (length (padZeros (1 + 1) (showNat n)) - 1) (padZeros (1 + 1) (showNat n))
                 = showNat (n mod 10)"
  proof (cases "n < 10")
    case True
    then show ?thesis by (simp add: showNat_digit padZeros_def showNat_zero)
  next
    case False
    then have n: "10 \<le> n" by simp
    have d: "n mod 10 < 10" by simp
    have l: "length (showNat (n mod 10)) = 1" by (simp add: showNat_digit [OF d])
    have "1 \<le> length (showNat (n div 10))"
      using showNat_nonempty [of "n div 10"] by (cases "showNat (n div 10)") simp_all
    then show ?thesis by (simp add: showNat_more [OF n] padZeros_def l)
  qed
  show ?thesis
    using assms split by (simp add: toFixed_def Let_def oneDecimal_def n_def)
qed

lemma rnd_relative:
  assumes "2 powi (- 1022) \<le> \<bar>x\<bar>"
  shows "\<bar>rnd x - x\<bar> \<le> \<bar>x\<bar> / 2 ^ 53"
proof -
  have pos: "0 < \<bar>x\<bar>" using assms by (smt (verit) zero_less_power_int)
  then have x: "x \<noteq> 0" by simp
  have "- 1022 \<le> expo \<bar>x\<bar>" by (rule expo_ge [OF pos assms])
  from ulp_le [OF x this] have "ulp x / 2 \<le> \<bar>x\<bar> / 2 ^ 52 / 2" by simp
  also have "\<dots> = \<bar>x\<bar> / 2 ^ 53" by simp
  finally show ?thesis using rnd_close [of x] by simp
qed

lemma fl_relative:
  assumes "2 powi (- 1022) \<le> x" "x \<le> 2 ^ 1000"
  shows "\<exists>a. fl x = Fin a \<and> 0 \<le> a \<and> \<bar>a - x\<bar> \<le> x / 2 ^ 53"
proof -
  have pos: "0 < x" using assms(1) by (smt (verit) zero_less_power_int)
  have r: "\<bar>rnd x - x\<bar> \<le> x / 2 ^ 53" using rnd_relative [of x] assms(1) pos by simp
  have "x / 2 ^ 53 \<le> x" using pos by (simp add: field_simps)
  with r have "\<bar>rnd x\<bar> \<le> 2 * x" by linarith
  also have "\<dots> \<le> 2 * 2 ^ 1000" using assms(2) by simp
  also have "\<dots> < (2::real) powi 1024" by simp
  finally have "fl x = Fin (rnd x)" by (rule fl_of_rnd)
  moreover have "0 \<le> rnd x" using pos by (intro rnd_nonneg) simp
  ultimately show ?thesis using r by blast
qed

lemma quality_value:
  assumes "g \<le> t" "0 < t" "t < 2 ^ 53"
  shows "\<exists>v. (numberOfNat g / numberOfNat t) * fl 100 = Fin v \<and> 0 \<le> v \<and> v \<le> 200
            \<and> \<bar>v - 100 * real g / real t\<bar> \<le> 300 / 2 ^ 53"
proof -
  have g53: "g < 2 ^ 53" using assms(1,3) by simp
  have conv: "numberOfNat g = Fin (real g)" "numberOfNat t = Fin (real t)"
    by (rule numberOfNat_exact [OF g53], rule numberOfNat_exact [OF assms(3)])
  have hundred: "fl 100 = Fin 100" using fl_of_int [of 100] by simp
  show ?thesis
  proof (cases "g = 0")
    case True
    have z: "numberOfNat 0 = Fin 0" using conv(1) True by simp
    show ?thesis
      using assms(2) by (simp add: True z conv(2) hundred divide_number_def times_number_def fl_zero)
  next
    case False
    define y where "y = real g / real t"
    have t: "0 < real t" "real t < 2 ^ 53" using assms(2,3) by simp_all
    have g: "1 \<le> real g" using False by simp
    have y1: "y \<le> 1" using assms(1) t(1) by (simp add: y_def)
    have "1 / 2 ^ 53 \<le> 1 / real t" using t by (simp add: frac_le)
    also have "\<dots> \<le> y" using g t(1) by (simp add: y_def divide_right_mono)
    finally have ylow: "1 / 2 ^ 53 \<le> y" .
    have "(2::real) powi (- 1022) \<le> 1 / 2 ^ 53" by (simp add: power_int_minus field_simps)
    with ylow have ylo: "2 powi (- 1022) \<le> y" by simp
    from fl_relative [OF ylo] y1 obtain a
      where a: "fl y = Fin a" "0 \<le> a" "\<bar>a - y\<bar> \<le> y / 2 ^ 53" by auto
    have ypos: "0 < y" using ylow by (smt (verit) divide_pos_pos zero_less_power)
    have "y / 2 ^ 53 \<le> y / 2" using ypos by (simp add: field_simps)
    with a(3) have half: "\<bar>a - y\<bar> \<le> y / 2" by linarith
    have a_up: "a \<le> 2" and a_lo: "y / 2 \<le> a"
      using half y1 by linarith+
    have "(2::real) powi (- 1022) \<le> 100 * (1 / 2 ^ 53 / 2)"
      by (simp add: power_int_minus field_simps)
    also have "\<dots> \<le> 100 * (y / 2)" using ylow by simp
    also have "\<dots> \<le> a * 100" using a_lo by simp
    finally have zlo: "2 powi (- 1022) \<le> a * 100" .
    have zup: "a * 100 \<le> 2 ^ 1000"
    proof -
      have "a * 100 \<le> 200" using a_up by simp
      also have "\<dots> \<le> (2::real) ^ 1000" by simp
      finally show ?thesis .
    qed
    from fl_relative [OF zlo zup] obtain b
      where b: "fl (a * 100) = Fin b" "0 \<le> b" "\<bar>b - a * 100\<bar> \<le> a * 100 / 2 ^ 53" by auto
    have prod: "(numberOfNat g / numberOfNat t) * fl 100 = Fin b"
      using t(1) a(1) b(1) by (simp add: conv hundred divide_number_def times_number_def y_def)
    have e1: "\<bar>b - a * 100\<bar> \<le> 200 / 2 ^ 53"
    proof -
      have "a * 100 / 2 ^ 53 \<le> 200 / 2 ^ 53" using a_up by (simp add: divide_right_mono)
      with b(3) show ?thesis by simp
    qed
    have e2: "\<bar>a * 100 - 100 * y\<bar> \<le> 100 / 2 ^ 53"
    proof -
      have "\<bar>a * 100 - 100 * y\<bar> = 100 * \<bar>a - y\<bar>" by (simp add: abs_if)
      also have "\<dots> \<le> 100 * (y / 2 ^ 53)" using a(3) by simp
      also have "\<dots> \<le> 100 * (1 / 2 ^ 53)" using y1 by (simp add: divide_right_mono)
      finally show ?thesis by simp
    qed
    have small: "(300::real) / 2 ^ 53 \<le> 1" by simp
    have "\<bar>b - 100 * y\<bar> \<le> 200 / 2 ^ 53 + 100 / 2 ^ 53" using e1 e2 by linarith
    then have "\<bar>b - 100 * y\<bar> \<le> 300 / 2 ^ 53" by simp
    moreover from this have "b \<le> 200" using y1 small by linarith
    ultimately show ?thesis using prod b(2) by (auto simp: y_def)
  qed
qed

lemma nearest_tenth:
  assumes "0 < t" "t < 2 ^ 40" "0 \<le> v" "\<bar>v - 100 * real g / real t\<bar> \<le> 300 / 2 ^ 53"
  shows "\<bar>real (nat \<lfloor>v * 10 + 1 / 2\<rfloor>) / 10 - 100 * real g / real t\<bar> \<le> 1 / 20"
proof -
  define n where "n = nat \<lfloor>v * 10 + 1 / 2\<rfloor>"
  define e where "e = 1000 * real g / real t"
  have tpos: "0 < real t" using assms(1) by simp
  have "0 \<le> \<lfloor>v * 10 + 1 / 2\<rfloor>" using assms(3) by simp
  then have rn: "real n = of_int \<lfloor>v * 10 + 1 / 2\<rfloor>" by (simp add: n_def)
  have near: "\<bar>real n - v * 10\<bar> \<le> 1 / 2" unfolding rn by linarith
  have eq: "v * 10 - e = 10 * (v - 100 * real g / real t)" by (simp add: e_def)
  have "\<bar>v * 10 - e\<bar> = \<bar>10 * (v - 100 * real g / real t)\<bar>" by (simp only: eq)
  also have "\<dots> = 10 * \<bar>v - 100 * real g / real t\<bar>" by (simp only: abs_mult abs_numeral)
  also have "\<dots> \<le> 10 * (300 / 2 ^ 53)" using assms(4) by (intro mult_left_mono) simp_all
  finally have err: "\<bar>v * 10 - e\<bar> \<le> 3000 / 2 ^ 53" by simp
  have A: "\<bar>real n - e\<bar> \<le> 1 / 2 + 3000 / 2 ^ 53" using near err by linarith
  define D where "D = 2 * int n * int t - 2000 * int g"
  have Dreal: "real_of_int D = 2 * real t * (real n - e)"
    using tpos by (simp add: D_def e_def field_simps)
  have half: "\<bar>real n - e\<bar> \<le> 1 / 2"
  proof (rule ccontr)
    assume "\<not> \<bar>real n - e\<bar> \<le> 1 / 2"
    then have gt: "1 / 2 < \<bar>real n - e\<bar>" by simp
    have "real t = 2 * real t * (1 / 2)" by simp
    also have "\<dots> < 2 * real t * \<bar>real n - e\<bar>"
      using gt tpos by (intro mult_strict_left_mono) simp_all
    also have "\<dots> = \<bar>real_of_int D\<bar>" using tpos by (simp add: Dreal abs_mult)
    finally have "real_of_int (int t) < real_of_int \<bar>D\<bar>" by simp
    then have "int t < \<bar>D\<bar>" by (simp only: of_int_less_iff)
    then have "int t + 1 \<le> \<bar>D\<bar>" by simp
    then have "real_of_int (int t + 1) \<le> real_of_int \<bar>D\<bar>" by (simp only: of_int_le_iff)
    then have "real t + 1 \<le> 2 * real t * \<bar>real n - e\<bar>"
      using tpos by (simp add: Dreal abs_mult)
    also have "\<dots> \<le> 2 * real t * (1 / 2 + 3000 / 2 ^ 53)"
      using A tpos by (intro mult_left_mono) simp_all
    also have "\<dots> = real t + real t * (6000 / 2 ^ 53)" by (simp add: algebra_simps)
    finally have "1 \<le> real t * (6000 / 2 ^ 53)" by simp
    moreover have "real t < 2 ^ 40" using assms(2)
      by (metis of_nat_less_iff of_nat_numeral of_nat_power)
    then have "real t * (6000 / 2 ^ 53) < 2 ^ 40 * (6000 / 2 ^ 53)"
      by (intro mult_strict_right_mono) simp_all
    moreover have "(2::real) ^ 40 * (6000 / 2 ^ 53) < 1" by simp
    ultimately show False by linarith
  qed
  have eq2: "real n / 10 - 100 * real g / real t = (real n - e) / 10"
    by (simp add: e_def field_simps)
  have "\<bar>real n / 10 - 100 * real g / real t\<bar> = \<bar>(real n - e) / 10\<bar>"
    by (simp only: eq2)
  also have "\<dots> = \<bar>real n - e\<bar> / 10" by (simp only: abs_divide abs_numeral)
  also have "\<dots> \<le> (1 / 2) / 10" using half by (intro divide_right_mono) simp_all
  finally show ?thesis by (simp add: n_def)
qed

lemma tenth_of_value:
  assumes "0 \<le> v"
  shows "\<bar>real (nat \<lfloor>v * 10 + 1 / 2\<rfloor>) / 10 - v\<bar> \<le> 1 / 20"
proof -
  have "0 \<le> \<lfloor>v * 10 + 1 / 2\<rfloor>" using assms by simp
  then have "real (nat \<lfloor>v * 10 + 1 / 2\<rfloor>) = of_int \<lfloor>v * 10 + 1 / 2\<rfloor>" by simp
  then show ?thesis by linarith
qed

lemma reachable_good_le_total:
  "goodFrames (stats (foldl (call c) newMonitor ks))
     \<le> totalFrames (stats (foldl (call c) newMonitor ks))"
proof -
  have "statsInv c newMonitor" by (simp add: statsInv_def newMonitor_def)
  then have "statsInv c (foldl (call c) newMonitor ks)" by (rule statsInv_calls)
  then show ?thesis by (simp add: statsInv_def)
qed

lemma postureQuality_zero:
  "totalFrames (stats m) = 0 \<Longrightarrow> postureQuality (getStats now m) = Some ''0%''"
  by (simp add: getStats_def numToString_def showNat_zero)

lemma postureQuality_value:
  assumes "goodFrames (stats m) \<le> totalFrames (stats m)" "0 < totalFrames (stats m)"
    "totalFrames (stats m) < 2 ^ 53"
  shows "\<exists>v. (numberOfNat (goodFrames (stats m)) / numberOfNat (totalFrames (stats m))) * fl 100
               = Fin v
           \<and> \<bar>v - 100 * real (goodFrames (stats m)) / real (totalFrames (stats m))\<bar>
               \<le> 300 / 2 ^ 53
           \<and> 0 \<le> v
           \<and> postureQuality (getStats now m)
               = Some (oneDecimal (nat \<lfloor>v * 10 + 1 / 2\<rfloor>) @ ''%'')"
proof -
  from quality_value [OF assms] obtain v
    where v: "(numberOfNat (goodFrames (stats m)) / numberOfNat (totalFrames (stats m))) * fl 100
               = Fin v" "0 \<le> v" "v \<le> 200"
      "\<bar>v - 100 * real (goodFrames (stats m)) / real (totalFrames (stats m))\<bar> \<le> 300 / 2 ^ 53"
    by blast
  have "v < 10 ^ 21" using v(3) by simp
  from toFixed_one [OF v(2) this] v(1) assms(2)
  have "postureQuality (getStats now m) = Some (oneDecimal (nat \<lfloor>v * 10 + 1 / 2\<rfloor>) @ ''%'')"
    by (simp add: getStats_def)
  with v show ?thesis by blast
qed

lemma verdict_analysis:
  "verdict c (Some x) = Some b \<Longrightarrow> \<exists>a. analyzePostureVsCalibration c x = Inr a \<and> isSlouching a = b"
  by (auto simp: verdict_def split: sum.splits)

lemma repeat_counts:
  assumes "isMonitoring m" "verdict c (Some x) = Some b"
  shows "isMonitoring (foldl (call c) m (replicate k (ProcessFrame now (Some x))))
       \<and> totalFrames (stats (foldl (call c) m (replicate k (ProcessFrame now (Some x)))))
           = totalFrames (stats m) + k
       \<and> goodFrames (stats (foldl (call c) m (replicate k (ProcessFrame now (Some x)))))
           = goodFrames (stats m) + (if b then 0 else k)"
  using assms(1)
proof (induction k arbitrary: m)
  case 0
  then show ?case by simp
next
  case (Suc k)
  from verdict_analysis [OF assms(2)] obtain a
    where a: "analyzePostureVsCalibration c x = Inr a" "isSlouching a = b" by blast
  note s = processFrame_counts [OF a(1) Suc.prems, of now]
  from Suc.IH [OF s(4)] s a(2) show ?case by simp
qed

lemma framesMonitor_stats:
  "totalFrames (stats (framesMonitor g s)) = g + s" "goodFrames (stats (framesMonitor g s)) = g"
proof -
  let ?m0 = "snd (start 0 scenarioCalibrator newMonitor)"
  let ?m1 = "foldl (call scenarioCalibrator) ?m0 (replicate g (ProcessFrame 0 (Some goodFrame)))"
  have m0: "isMonitoring ?m0" "totalFrames (stats ?m0) = 0" "goodFrames (stats ?m0) = 0"
    by (simp_all add: start_def scenario_has_calibration)
  note g = repeat_counts [OF m0(1) verdict_goodFrame, of g 0]
  from g have m1: "isMonitoring ?m1" by blast
  note b = repeat_counts [OF m1 verdict_slouchedFrame, of s 0]
  show "totalFrames (stats (framesMonitor g s)) = g + s"
    "goodFrames (stats (framesMonitor g s)) = g"
    using g b m0 by (simp_all add: framesMonitor_def)
qed

lemma twoFrameMonitor_stats:
  "totalFrames (stats twoFrameMonitor) = 2" "goodFrames (stats twoFrameMonitor) = 1"
  using framesMonitor_stats [of 1 1] by (simp_all add: twoFrameMonitor_def framesMonitor_def)

lemma quality_23_of_80:
  "(numberOfNat 23 / numberOfNat 80) * fl 100 = Fin (8092405580431359 / 281474976710656)"
  by (simp add: numberOfNat_def divide_number_def times_number_def fl_eval)

lemma oneDecimal_287: "oneDecimal 287 = ''28.7''"
  by (simp add: oneDecimal_def showNat_more showNat_digit)

lemma oneDecimal_288: "oneDecimal 288 = ''28.8''"
  by (simp add: oneDecimal_def showNat_more showNat_digit)

text \<open>
  C8, as stated, fails at 23 good frames of 80. The percentage is exactly 28.75, which
  rounds to 28.8 (half up, and half to even as well); the double that JavaScript computes
  for \<open>23 / 80 * 100\<close> is 28.749999999999996, and \<open>toFixed(1)\<close> prints 28.7.
\<close>

theorem quality_of_23_in_80:
  "totalFrames (stats (framesMonitor 23 57)) = 80
   \<and> goodFrames (stats (framesMonitor 23 57)) = 23
   \<and> postureQuality (getStats 0 (framesMonitor 23 57)) = Some ''28.7%''
   \<and> claimedPostureQuality (framesMonitor 23 57) = ''28.8%''
   \<and> roundHalfEven (real 23 / real 80 * 100 * 10) = 288"
proof -
  note s = framesMonitor_stats [of 23 57]
  have "toFixed 1 (Fin (8092405580431359 / 281474976710656))
          = Some (oneDecimal (nat \<lfloor>8092405580431359 / 281474976710656 * 10 + 1 / (2::real)\<rfloor>))"
    by (rule toFixed_one) simp_all
  then have "toFixed 1 (Fin (8092405580431359 / 281474976710656)) = Some ''28.7''"
    by (simp add: oneDecimal_287)
  then have q: "postureQuality (getStats 0 (framesMonitor 23 57)) = Some ''28.7%''"
    by (simp add: getStats_def s quality_23_of_80)
  have c: "claimedPostureQuality (framesMonitor 23 57) = ''28.8%''"
    by (simp add: claimedPostureQuality_def s oneDecimal_288)
  have r: "roundHalfEven (real 23 / real 80 * 100 * 10) = 288"
    by (simp add: roundHalfEven_def)
  show ?thesis using s q c r by simp
qed

text \<open>
  C8, amended. For every state that calls on a new monitor reach, with fewer than
  \<open>2 ^ 53\<close> frames counted (beyond that a JavaScript counter is no longer exact),
  \<open>postureQuality\<close> is \<open>"0%"\<close> when \<open>totalFrames\<close> is 0. Otherwise it is the double \<open>v\<close>
  that JavaScript computes for \<open>goodFrames / totalFrames * 100\<close>, rounded to one decimal
  by \<open>toFixed(1)\<close> (the tenth \<open>floor (10 v + 1/2) / 10\<close>: nearest to \<open>v\<close>, the upper one on
  a tie of \<open>v\<close>), followed by \<open>%\<close>. The double differs from the exact percentage by at most
  \<open>300 / 2 ^ 53\<close>, so below \<open>2 ^ 40\<close> frames what is printed is a nearest tenth of the exact
  percentage; when the exact percentage lies midway between two tenths it can be the
  lower one.
\<close>

theorem posture_quality_rounded:
  assumes "m = foldl (call c) newMonitor ks" and "totalFrames (stats m) < 2 ^ 53"
  shows "(totalFrames (stats m) = 0 \<longrightarrow> postureQuality (getStats now m) = Some ''0%'')
       \<and> (0 < totalFrames (stats m) \<longrightarrow>
            (\<exists>v. (numberOfNat (goodFrames (stats m)) / numberOfNat (totalFrames (stats m)))
                      * fl 100 = Fin v
                 \<and> postureQuality (getStats now m)
                     = Some (oneDecimal (nat \<lfloor>v * 10 + 1 / 2\<rfloor>) @ ''%'')
                 \<and> \<bar>v - real (goodFrames (stats m)) / real (totalFrames (stats m)) * 100\<bar>
                     \<le> 300 / 2 ^ 53
                 \<and> (totalFrames (stats m) < 2 ^ 40 \<longrightarrow>
                      \<bar>real (nat \<lfloor>v * 10 + 1 / 2\<rfloor>) / 10
                        - real (goodFrames (stats m)) / real (totalFrames (stats m)) * 100\<bar>
                      \<le> 1 / 20)))"
proof (intro conjI impI)
  assume "totalFrames (stats m) = 0"
  then show "postureQuality (getStats now m) = Some ''0%''" by (rule postureQuality_zero)
next
  assume pos: "0 < totalFrames (stats m)"
  have le: "goodFrames (stats m) \<le> totalFrames (stats m)"
    unfolding assms(1) by (rule reachable_good_le_total)
  from postureQuality_value [OF le pos assms(2), of now] obtain v
    where v: "(numberOfNat (goodFrames (stats m)) / numberOfNat (totalFrames (stats m))) * fl 100
               = Fin v"
      "\<bar>v - 100 * real (goodFrames (stats m)) / real (totalFrames (stats m))\<bar> \<le> 300 / 2 ^ 53"
      "0 \<le> v"
      "postureQuality (getStats now m) = Some (oneDecimal (nat \<lfloor>v * 10 + 1 / 2\<rfloor>) @ ''%'')"
    by blast
  have e: "100 * real (goodFrames (stats m)) / real (totalFrames (stats m))
             = real (goodFrames (stats m)) / real (totalFrames (stats m)) * 100"
    by simp
  have "\<bar>real (nat \<lfloor>v * 10 + 1 / 2\<rfloor>) / 10
          - real (goodFrames (stats m)) / real (totalFrames (stats m)) * 100\<bar> \<le> 1 / 20"
    if "totalFrames (stats m) < 2 ^ 40"
    using nearest_tenth [OF pos that v(3) v(2)] by (simp only: e)
  then show "\<exists>v. (numberOfNat (goodFrames (stats m)) / numberOfNat (totalFrames (stats m)))
                      * fl 100 = Fin v
                 \<and> postureQuality (getStats now m)
                     = Some (oneDecimal (nat \<lfloor>v * 10 + 1 / 2\<rfloor>) @ ''%'')
                 \<and> \<bar>v - real (goodFrames (stats m)) / real (totalFrames (stats m)) * 100\<bar>
                     \<le> 300 / 2 ^ 53
                 \<and> (totalFrames (stats m) < 2 ^ 40 \<longrightarrow>
                      \<bar>real (nat \<lfloor>v * 10 + 1 / 2\<rfloor>) / 10
                        - real (goodFrames (stats m)) / real (totalFrames (stats m)) * 100\<bar>
                      \<le> 1 / 20)"
    using v(1,2,4) unfolding e by blast
qed

lemma oneDecimal_500: "oneDecimal 500 = ''50.0''"
  by (simp add: oneDecimal_def showNat_more showNat_digit)

lemma oneDecimal_63: "oneDecimal 63 = ''6.3''"
  by (simp add: oneDecimal_def showNat_more showNat_digit)

lemma quality_1_of_2: "(numberOfNat 1 / numberOfNat 2) * fl 100 = Fin 50"
  by (simp add: numberOfNat_def divide_number_def times_number_def fl_eval)

lemma quality_1_of_16: "(numberOfNat 1 / numberOfNat 16) * fl 100 = Fin (25 / 4)"
  by (simp add: numberOfNat_def divide_number_def times_number_def fl_eval)

theorem posture_quality_rounded_witness:
  "totalFrames (stats twoFrameMonitor) = 2 \<and> goodFrames (stats twoFrameMonitor) = 1
   \<and> postureQuality (getStats 0 twoFrameMonitor) = Some ''50.0%''
   \<and> totalFrames (stats (framesMonitor 1 15)) = 16 \<and> goodFrames (stats (framesMonitor 1 15)) = 1
   \<and> (numberOfNat 1 / numberOfNat 16) * fl 100 = Fin (25 / 4)
   \<and> postureQuality (getStats 0 (framesMonitor 1 15)) = Some ''6.3%''
   \<and> postureQuality (getStats 0 newMonitor) = Some ''0%''"
proof -
  note s = twoFrameMonitor_stats
  have b: "totalFrames (stats twoFrameMonitor) < 2 ^ 53" by (simp add: s)
  from posture_quality_rounded [OF twoFrameMonitor_def b, of 0]
  obtain v where v: "(numberOfNat 1 / numberOfNat 2) * fl 100 = Fin v"
      "postureQuality (getStats 0 twoFrameMonitor)
         = Some (oneDecimal (nat \<lfloor>v * 10 + 1 / 2\<rfloor>) @ ''%'')"
    by (auto simp: s)
  from v(1) have "v = 50" unfolding quality_1_of_2 by simp
  with v(2) have q2: "postureQuality (getStats 0 twoFrameMonitor) = Some ''50.0%''"
    by (simp add: oneDecimal_500)
  have t: "totalFrames (stats (framesMonitor 1 15)) = 16"
    "goodFrames (stats (framesMonitor 1 15)) = 1"
    using framesMonitor_stats [of 1 15] by simp_all
  have b16: "totalFrames (stats (framesMonitor 1 15)) < 2 ^ 53" unfolding t by simp
  from posture_quality_rounded [OF framesMonitor_def b16, of 0]
  obtain w where w: "(numberOfNat 1 / numberOfNat 16) * fl 100 = Fin w"
      "postureQuality (getStats 0 (framesMonitor 1 15))
         = Some (oneDecimal (nat \<lfloor>w * 10 + 1 / 2\<rfloor>) @ ''%'')"
    unfolding t by auto
  from w(1) have "w = 25 / 4" unfolding quality_1_of_16 by simp
  with w(2) have q16: "postureQuality (getStats 0 (framesMonitor 1 15)) = Some ''6.3%''"
    by (simp add: oneDecimal_63)
  have z: "totalFrames (stats (foldl (call scenarioCalibrator) newMonitor [])) < 2 ^ 53"
    by (simp add: newMonitor_def)
  from posture_quality_rounded [OF refl z, of 0]
  have "postureQuality (getStats 0 newMonitor) = Some ''0%''"
    by (simp add: newMonitor_def)
  with q2 q16 s t quality_1_of_16 show ?thesis by simp
qed

end
